theory Spec2Isabelle
  imports Complex_Main
begin

section \<open>JavaScript values\<close>

text \<open>
  The message parts and the rows of the \<open>parts\<close> table are JavaScript objects whose
  payload fields have the TypeScript type \<open>any\<close>. A value is \<open>undefined\<close>, \<open>null\<close>, a
  boolean, a number, a string, an array or an object (a list of properties in
  insertion order). Payload numbers are integers here: the codec only copies them.
\<close>

datatype jsval =
    JUndefined
  | JNull
  | JBool bool
  | JNum int
  | JStr string
  | JArr "jsval list"
  | JObj "(string \<times> jsval) list"

datatype js_error = TypeError | Error string

text \<open>Truthiness, as tested by \<open>||\<close>, \<open>!\<close>, \<open>?:\<close> and \<open>if\<close>.\<close>

fun truthy :: "jsval \<Rightarrow> bool" where
  "truthy JUndefined = False"
| "truthy JNull = False"
| "truthy (JBool b) = b"
| "truthy (JNum n) = (n \<noteq> 0)"
| "truthy (JStr s) = (s \<noteq> [])"
| "truthy (JArr xs) = True"
| "truthy (JObj kvs) = True"

definition js_or :: "jsval \<Rightarrow> jsval \<Rightarrow> jsval" where
  "js_or a b = (if truthy a then a else b)"

text \<open>
  \<open>a === b\<close>. Primitives compare by value; arrays and objects compare by reference,
  and two payloads read from different parts are different objects.
\<close>

fun strict_eq :: "jsval \<Rightarrow> jsval \<Rightarrow> bool" where
  "strict_eq JUndefined JUndefined = True"
| "strict_eq JNull JNull = True"
| "strict_eq (JBool a) (JBool b) = (a = b)"
| "strict_eq (JNum a) (JNum b) = (a = b)"
| "strict_eq (JStr a) (JStr b) = (a = b)"
| "strict_eq a b = False"

text \<open>\<open>typeof v === 'string'\<close>.\<close>

fun is_string :: "jsval \<Rightarrow> bool" where
  "is_string (JStr s) = True"
| "is_string v = False"

text \<open>\<open>s.startsWith(p)\<close> and \<open>s.substring(n)\<close> on strings.\<close>

definition startsWith :: "string \<Rightarrow> string \<Rightarrow> bool" where
  "startsWith s p = (take (length p) s = p)"

definition substring :: "string \<Rightarrow> nat \<Rightarrow> string" where
  "substring s n = drop n s"

text \<open>
  \<open>String(v)\<close>, also the conversion of a template literal. Numbers are the integers
  and are printed in decimal digits; JavaScript prints a number from \<open>1e21\<close> on in
  exponent form, which is not modelled.
\<close>

definition digit_char :: "nat \<Rightarrow> char" where
  "digit_char d = ''0123456789'' ! d"

function string_of_nat :: "nat \<Rightarrow> string" where
  "string_of_nat n =
     (if n < 10 then [digit_char n] else string_of_nat (n div 10) @ [digit_char (n mod 10)])"
  by pat_completeness auto
termination
  by (relation "measure id") auto

definition string_of_int :: "int \<Rightarrow> string" where
  "string_of_int i = (if i < 0 then ''-'' @ string_of_nat (nat (- i)) else string_of_nat (nat i))"

fun join :: "string \<Rightarrow> string list \<Rightarrow> string" where
  "join sep [] = []"
| "join sep [x] = x"
| "join sep (x # y # ys) = x @ sep @ join sep (y # ys)"

fun js_String :: "jsval \<Rightarrow> string" where
  "js_String JUndefined = ''undefined''"
| "js_String JNull = ''null''"
| "js_String (JBool b) = (if b then ''true'' else ''false'')"
| "js_String (JNum n) = string_of_int n"
| "js_String (JStr s) = s"
| "js_String (JArr xs) =
     join '','' (map (\<lambda>x. if x = JUndefined \<or> x = JNull then [] else js_String x) xs)"
| "js_String (JObj kvs) = ''[object Object]''"

section \<open>Message parts and rows\<close>

text \<open>
  A \<open>UIMessagePart\<close> is an object with a string \<open>type\<close> and further properties; the
  union's last member, \<open>DataPart = { type: string; [key: string]: any }\<close>, admits every
  such object, so a part is its type tag and the list of its other properties.
  \<open>get p k\<close> is the property read \<open>p.k\<close> and \<open>has p k\<close> is \<open>k in p\<close>.
\<close>

record ui_part =
  ptype :: string
  props :: "(string \<times> jsval) list"

definition get :: "ui_part \<Rightarrow> string \<Rightarrow> jsval" where
  "get p k = (case map_of (props p) k of None \<Rightarrow> JUndefined | Some v \<Rightarrow> v)"

definition has :: "ui_part \<Rightarrow> string \<Rightarrow> bool" where
  "has p k = (k \<in> set (map fst (props p)))"

text \<open>The part itself as a value (stored whole by the passthrough row).\<close>

definition part_value :: "ui_part \<Rightarrow> jsval" where
  "part_value p = JObj ((''type'', JStr (ptype p)) # props p)"

text \<open>
  A \<open>DBMessagePart\<close>: the three properties every row has and its columns. The encoder
  writes to computed column names (\<open>tool_<name>_input\<close>), so the columns are a function
  from the column name; a column never written reads \<open>undefined\<close>.
\<close>

record db_part =
  messageId :: string
  order :: nat
  type :: string
  cols :: "string \<Rightarrow> jsval"

definition setCol :: "string \<Rightarrow> jsval \<Rightarrow> db_part \<Rightarrow> db_part" where
  "setCol k v r = r\<lparr>cols := (cols r)(k := v)\<rparr>"

text \<open>The properties of an object literal, written left to right (a later one wins).\<close>

definition withCols :: "(string \<times> jsval) list \<Rightarrow> db_part \<Rightarrow> db_part" where
  "withCols kvs r = foldl (\<lambda>r' (k, v). setCol k v r') r kvs"

section \<open>The part codec: encoding\<close>

text \<open>Type guards \<open>isToolCallPart\<close>, \<open>isToolResultPart\<close> and \<open>isExtendedToolPart\<close>.\<close>

definition isToolCallPart :: "ui_part \<Rightarrow> bool" where
  "isToolCallPart part =
     (ptype part = ''tool-call'' \<and> is_string (get part ''toolCallId'') \<and>
      is_string (get part ''toolName'') \<and> get part ''args'' \<noteq> JUndefined)"

definition isToolResultPart :: "ui_part \<Rightarrow> bool" where
  "isToolResultPart part =
     (ptype part = ''tool-result'' \<and> is_string (get part ''toolCallId'') \<and>
      get part ''result'' \<noteq> JUndefined)"

definition isExtendedToolPart :: "ui_part \<Rightarrow> bool" where
  "isExtendedToolPart part = startsWith (ptype part) ''tool-''"

text \<open>
  \<open>getToolNameFromType\<close>. The argument is read from a part and is a string only when
  the part is well typed: \<open>toolName.startsWith\<close> on anything else is a \<open>TypeError\<close>.
  The name map is looked up by its own properties only: \<open>toolNameMap[toolName]\<close> also
  finds the properties an object literal inherits from \<open>Object.prototype\<close>
  (\<open>constructor\<close>, \<open>toString\<close>, \<open>__proto__\<close>, ...), whose values are not strings;
  tool names equal to such a property name are not modelled.
\<close>

definition toolNameMap :: "(string \<times> string) list" where
  "toolNameMap =
     [(''search'', ''search''), (''fetch'', ''fetch''), (''askQuestion'', ''question''),
      (''question'', ''question''), (''todoWrite'', ''todoWrite''), (''todoRead'', ''todoRead'')]"

fun getToolNameFromType :: "jsval \<Rightarrow> js_error + string" where
  "getToolNameFromType (JStr toolName) =
     (if startsWith toolName ''mcp__'' \<or> startsWith toolName ''dynamic__'' then Inr ''dynamic''
      else (case map_of toolNameMap toolName of
              Some n \<Rightarrow> Inr (if n \<noteq> [] then n else toolName)
            | None \<Rightarrow> Inr toolName))"
| "getToolNameFromType v = Inl TypeError"

text \<open>
  \<open>getToolNameFromCallId\<close>. The callback of \<open>find\<close> tests the type tag and the call
  identifier only (not \<open>isToolCallPart\<close>), so the part found may lack a \<open>toolName\<close>.
\<close>

definition getToolNameFromCallId :: "jsval \<Rightarrow> ui_part list \<Rightarrow> js_error + string" where
  "getToolNameFromCallId toolCallId allParts =
     (case find (\<lambda>part. ptype part = ''tool-call'' \<and> strict_eq (get part ''toolCallId'') toolCallId)
             allParts of
        Some toolCallPart \<Rightarrow> getToolNameFromType (get toolCallPart ''toolName'')
      | None \<Rightarrow> Inr ''unknown'')"

text \<open>\<open>toolName.startsWith('mcp__') ? 'mcp' : 'dynamic'\<close>, on a string.\<close>

definition dynamicType :: "string \<Rightarrow> jsval" where
  "dynamicType toolName = JStr (if startsWith toolName ''mcp__'' then ''mcp'' else ''dynamic'')"

text \<open>
  \<open>createToolPartMapping\<close>. \<open>generateId()\<close> draws a fresh identifier from an external
  generator; the callback of \<open>mapUIMessagePartsToDBParts\<close> calls it at most once for a
  part, so \<open>newId\<close> stands for the identifier drawn while that part is mapped.
\<close>

definition createToolPartMapping :: "string \<Rightarrow> db_part \<Rightarrow> ui_part \<Rightarrow> string \<Rightarrow> db_part" where
  "createToolPartMapping newId basePart part toolName =
     withCols
       [(''tool_toolCallId'', js_or (get part ''toolCallId'') (JStr newId)),
        (''tool_state'', js_or (get part ''state'') (JStr ''input-available'')),
        (''tool_errorText'', get part ''errorText''),
        (''tool_'' @ toolName @ ''_input'', get part ''input''),
        (''tool_'' @ toolName @ ''_output'', get part ''output'')]
       (basePart\<lparr>type := ptype part\<rparr>)"

text \<open>
  The callback of \<open>messageParts.map\<close> in \<open>mapUIMessagePartsToDBParts\<close>: the row of one
  part, \<open>None\<close> for a part that is dropped (\<open>return null\<close>).
\<close>

definition mapPart ::
  "string \<Rightarrow> ui_part list \<Rightarrow> string \<Rightarrow> ui_part \<Rightarrow> nat \<Rightarrow> js_error + db_part option" where
  "mapPart newId messageParts mid part index =
    (let basePart = \<lparr>messageId = mid, order = index, type = ptype part, cols = (\<lambda>c. JUndefined)\<rparr>;
         t = ptype part
     in
     if t = ''text'' then
       Inr (Some (withCols [(''text_text'', get part ''text'')] basePart))
     else if t = ''reasoning'' then
       Inr (Some (withCols [(''reasoning_text'', get part ''text''),
                            (''providerMetadata'', get part ''providerMetadata'')] basePart))
     else if t = ''file'' then
       Inr (Some (withCols [(''file_mediaType'', get part ''mediaType''),
                            (''file_filename'', get part ''filename''),
                            (''file_url'', get part ''url'')] basePart))
     else if t = ''source-url'' then
       Inr (Some (withCols [(''source_url_sourceId'', get part ''sourceId''),
                            (''source_url_url'', get part ''url''),
                            (''source_url_title'', get part ''title'')] basePart))
     else if t = ''source-document'' then
       Inr (Some (withCols [(''source_document_sourceId'', get part ''sourceId''),
                            (''source_document_mediaType'', get part ''mediaType''),
                            (''source_document_title'', get part ''title''),
                            (''source_document_filename'', get part ''filename''),
                            (''source_document_url'', get part ''url''),
                            (''source_document_snippet'', get part ''snippet'')] basePart))
     else if t = ''tool-call'' then
       (if \<not> isToolCallPart part then Inr None
        else case getToolNameFromType (get part ''toolName'') of
          Inl e \<Rightarrow> Inl e
        | Inr toolName \<Rightarrow>
            let result = withCols [(''tool_toolCallId'', get part ''toolCallId''),
                                   (''tool_state'', JStr ''input-available''),
                                   (''tool_'' @ toolName @ ''_input'', get part ''args'')]
                           (basePart\<lparr>type := ''tool-'' @ toolName\<rparr>)
            in Inr (Some (if toolName = ''dynamic''
                          then withCols [(''tool_dynamic_name'', get part ''toolName''),
                                         (''tool_dynamic_type'',
                                            dynamicType (js_String (get part ''toolName'')))] result
                          else result)))
     else if t = ''tool-result'' then
       (case getToolNameFromCallId (get part ''toolCallId'') messageParts of
          Inl e \<Rightarrow> Inl e
        | Inr resultToolName \<Rightarrow>
            let isError = truthy (get part ''isError'');
                toolResult =
                  withCols [(''tool_toolCallId'', get part ''toolCallId''),
                            (''tool_state'',
                               JStr (if isError then ''output-error'' else ''output-available'')),
                            (''tool_errorText'',
                               if isError then JStr (js_String (get part ''result'')) else JUndefined),
                            (''tool_'' @ resultToolName @ ''_output'',
                               if \<not> isError then get part ''result'' else JUndefined)]
                    (basePart\<lparr>type := ''tool-'' @ resultToolName\<rparr>)
            in Inr (Some (if resultToolName = ''dynamic''
                          then (case find (\<lambda>p. isToolCallPart p \<and>
                                             strict_eq (get p ''toolCallId'') (get part ''toolCallId''))
                                       messageParts of
                                  Some toolCallPart \<Rightarrow>
                                    withCols [(''tool_dynamic_name'', get toolCallPart ''toolName''),
                                              (''tool_dynamic_type'',
                                                 dynamicType (js_String (get toolCallPart ''toolName'')))]
                                      toolResult
                                | None \<Rightarrow> toolResult)
                          else toolResult)))
     else if t = ''step-start'' then Inr (Some basePart)
     else if t = ''step-result'' \<or> t = ''step-continue'' \<or> t = ''step-finish'' then Inr None
     else if t = ''dynamic-tool'' then
       (case get part ''toolName'' of
          JStr toolName \<Rightarrow>
            Inr (Some (withCols
              [(''tool_toolCallId'', js_or (get part ''toolCallId'') (JStr newId)),
               (''tool_state'', get part ''state''),
               (''tool_dynamic_name'', JStr toolName),
               (''tool_dynamic_type'', dynamicType toolName),
               (''tool_dynamic_input'', get part ''input''),
               (''tool_dynamic_output'',
                  if strict_eq (get part ''state'') (JStr ''output-available'')
                  then get part ''output'' else JUndefined),
               (''tool_errorText'',
                  if strict_eq (get part ''state'') (JStr ''output-error'')
                  then get part ''errorText'' else JUndefined)]
              (basePart\<lparr>type := ''tool-dynamic''\<rparr>)))
        | _ \<Rightarrow> Inl TypeError)
     else if t = ''tool-search'' then
       (if \<not> isExtendedToolPart part then Inr None
        else Inr (Some (createToolPartMapping newId basePart part ''search'')))
     else if t = ''tool-fetch'' then
       (if \<not> isExtendedToolPart part then Inr None
        else Inr (Some (createToolPartMapping newId basePart part ''fetch'')))
     else if t = ''tool-question'' then
       (if \<not> isExtendedToolPart part then Inr None
        else Inr (Some (createToolPartMapping newId basePart part ''question'')))
     else if t = ''tool-todoWrite'' then
       (if \<not> isExtendedToolPart part then Inr None
        else Inr (Some (createToolPartMapping newId basePart part ''todoWrite'')))
     else if t = ''tool-todoRead'' then
       (if \<not> isExtendedToolPart part then Inr None
        else Inr (Some (createToolPartMapping newId basePart part ''todoRead'')))
     else if startsWith t ''data-'' then
       Inr (Some (withCols
         [(''data_prefix'', JStr (substring t 5)),
          (''data_content'', if has part ''data'' then get part ''data'' else part_value part),
          (''data_id'', if has part ''id'' then get part ''id'' else JUndefined)] basePart))
     else
       Inr (Some (withCols [(''data_prefix'', JStr t), (''data_content'', part_value part)] basePart)))"

text \<open>A \<open>map\<close> whose callback may throw: the first exception ends it.\<close>

fun collect :: "('e + 'a) list \<Rightarrow> 'e + 'a list" where
  "collect [] = Inr []"
| "collect (Inl e # xs) = Inl e"
| "collect (Inr x # xs) = (case collect xs of Inl e \<Rightarrow> Inl e | Inr ys \<Rightarrow> Inr (x # ys))"

text \<open>
  \<open>mapUIMessagePartsToDBParts\<close>: map every part with its index, drop the \<open>null\<close>s,
  re-index. \<open>gen i\<close> is the identifier \<open>generateId()\<close> returns while the part at index
  \<open>i\<close> is mapped.
\<close>

definition mapUIMessagePartsToDBParts ::
  "(nat \<Rightarrow> string) \<Rightarrow> ui_part list \<Rightarrow> string \<Rightarrow> js_error + db_part list" where
  "mapUIMessagePartsToDBParts gen messageParts mid =
     (case collect (map (\<lambda>(index, part). mapPart (gen index) messageParts mid part index)
                        (enumerate 0 messageParts)) of
        Inl e \<Rightarrow> Inl e
      | Inr mappedParts \<Rightarrow>
          Inr (map (\<lambda>(index, part). part\<lparr>order := index\<rparr>)
                   (enumerate 0 (map the (filter (\<lambda>part. part \<noteq> None) mappedParts)))))"

section \<open>The part codec: decoding\<close>






section \<open>Well-typed parts\<close>

text \<open>
  The part types declared beside the codec (\<open>TextUIPart\<close>, \<open>ReasoningUIPart\<close>,
  \<open>FileUIPart\<close>, \<open>SourceUrlUIPart\<close>, \<open>SourceDocumentUIPart\<close>, \<open>ExtendedToolPart\<close>), the
  dynamic tool part (\<open>toolCallId\<close>, \<open>toolName\<close>, \<open>state\<close>, \<open>input\<close>, \<open>output\<close>,
  \<open>errorText\<close>) and a data part (\<open>data-<suffix>\<close> with \<open>data\<close> and an optional \<open>id\<close>),
  as builders of parts. An optional property is absent when \<open>None\<close>.
\<close>

definition optional :: "string \<Rightarrow> jsval option \<Rightarrow> (string \<times> jsval) list" where
  "optional k v = (case v of None \<Rightarrow> [] | Some x \<Rightarrow> [(k, x)])"

definition TextUIPart :: "string \<Rightarrow> jsval option \<Rightarrow> ui_part" where
  "TextUIPart text providerMetadata =
     \<lparr>ptype = ''text'', props = (''text'', JStr text) # optional ''providerMetadata'' providerMetadata\<rparr>"





definition ExtendedToolPart ::
  "string \<Rightarrow> string option \<Rightarrow> string option \<Rightarrow> string option \<Rightarrow> jsval option \<Rightarrow>
   jsval option \<Rightarrow> ui_part" where
  "ExtendedToolPart t toolCallId state errorText input output =
     \<lparr>ptype = t,
      props = optional ''toolCallId'' (map_option JStr toolCallId) @
              optional ''state'' (map_option JStr state) @
              optional ''errorText'' (map_option JStr errorText) @
              optional ''input'' input @ optional ''output'' output\<rparr>"





definition extendedToolTypes :: "string list" where
  "extendedToolTypes =
     [''tool-search'', ''tool-fetch'', ''tool-question'', ''tool-todoWrite'', ''tool-todoRead'']"

text \<open>The type tags that have a case of their own in \<open>mapUIMessagePartsToDBParts\<close>.\<close>

definition knownTags :: "string list" where
  "knownTags =
     [''text'', ''reasoning'', ''file'', ''source-url'', ''source-document'', ''tool-call'',
      ''tool-result'', ''step-start'', ''step-result'', ''step-continue'', ''step-finish'',
      ''dynamic-tool'', ''tool-search'', ''tool-fetch'', ''tool-question'', ''tool-todoWrite'',
      ''tool-todoRead'']"

section \<open>Notions the codec's properties are stated with\<close>



text \<open>The indices of the parts that are not dropped, in ascending order.\<close>

definition survivors :: "(nat \<Rightarrow> string) \<Rightarrow> ui_part list \<Rightarrow> string \<Rightarrow> nat list" where
  "survivors gen parts mid =
     filter (\<lambda>i. mapPart (gen i) parts mid (parts ! i) i \<noteq> Inr None) [0..<length parts]"

text \<open>
  The tool names of a batch are typed as \<open>ToolCallPart\<close> and the dynamic tool part
  declare them: every \<open>dynamic-tool\<close> part has a string \<open>toolName\<close>, and so has every
  \<open>tool-call\<close> part that a \<open>tool-result\<close> part of the batch refers to. (A \<open>tool-call\<close>
  part without a name that no result refers to is allowed: it is dropped.)
\<close>

definition toolNamesTyped :: "ui_part list \<Rightarrow> bool" where
  "toolNamesTyped parts \<longleftrightarrow>
     (\<forall>p \<in> set parts.
        (ptype p = ''dynamic-tool'' \<longrightarrow> is_string (get p ''toolName'')) \<and>
        (ptype p = ''tool-result'' \<longrightarrow>
           (\<forall>q \<in> set parts. ptype q = ''tool-call'' \<and>
                 strict_eq (get q ''toolCallId'') (get p ''toolCallId'') \<longrightarrow>
               is_string (get q ''toolName''))))"

text \<open>A property of the row a part is mapped to, when there is one.\<close>

fun rowHas :: "(db_part \<Rightarrow> bool) \<Rightarrow> js_error + db_part option \<Rightarrow> bool" where
  "rowHas P (Inr (Some r)) = P r"
| "rowHas P (Inr None) = True"
| "rowHas P (Inl e) = True"

text \<open>
  The check constraint \<open>tool_fields_required\<close> of the \<open>parts\<close> table:
  \<open>type NOT LIKE 'tool-%' OR (tool_tool_call_id IS NOT NULL AND tool_state IS NOT NULL)\<close>.
  A property that is \<open>null\<close> or \<open>undefined\<close> is stored as \<open>NULL\<close>.
\<close>

definition notNull :: "jsval \<Rightarrow> bool" where
  "notNull v \<longleftrightarrow> v \<noteq> JNull \<and> v \<noteq> JUndefined"

definition tool_fields_required :: "db_part \<Rightarrow> bool" where
  "tool_fields_required r \<longleftrightarrow>
     \<not> startsWith (type r) ''tool-'' \<or>
     (notNull (cols r ''tool_toolCallId'') \<and> notNull (cols r ''tool_state''))"

text \<open>A batch with two dropped parts (a transient step part and an invalid \<open>tool-call\<close>).\<close>

definition dropping_batch :: "ui_part list" where
  "dropping_batch =
     [TextUIPart ''a'' None,
      \<lparr>ptype = ''step-finish'', props = []\<rparr>,
      \<lparr>ptype = ''tool-call'', props = [(''toolCallId'', JStr ''c1'')]\<rparr>,
      ExtendedToolPart ''tool-search'' (Some ''c2'') (Some ''input-available'') None None None]"

text \<open>A batch whose \<open>tool-result\<close> part refers to no \<open>tool-call\<close> part.\<close>

definition unmatched_batch :: "ui_part list" where
  "unmatched_batch =
     [\<lparr>ptype = ''tool-call'',
       props = [(''toolCallId'', JStr ''c1''), (''toolName'', JStr ''search''),
                (''args'', JObj [(''query'', JStr ''q'')])]\<rparr>,
      \<lparr>ptype = ''tool-result'',
       props = [(''toolCallId'', JStr ''c9''), (''result'', JStr ''r'')]\<rparr>]"

text \<open>
  A batch whose \<open>tool-call\<close> part has no \<open>toolName\<close> (an invalid \<open>tool-call\<close> part) and
  whose \<open>tool-result\<close> part refers to it.
\<close>

definition nameless_call_batch :: "ui_part list" where
  "nameless_call_batch =
     [\<lparr>ptype = ''tool-call'', props = [(''toolCallId'', JStr ''c1''), (''args'', JObj [])]\<rparr>,
      \<lparr>ptype = ''tool-result'',
       props = [(''toolCallId'', JStr ''c1''), (''result'', JStr ''r'')]\<rparr>]"

text \<open>
  A batch with the same two parts and a second \<open>tool-result\<close> part that refers to no
  \<open>tool-call\<close> part.
\<close>

definition nameless_unmatched_batch :: "ui_part list" where
  "nameless_unmatched_batch =
     [\<lparr>ptype = ''tool-call'', props = [(''toolCallId'', JStr ''c1''), (''args'', JObj [])]\<rparr>,
      \<lparr>ptype = ''tool-result'',
       props = [(''toolCallId'', JStr ''c1''), (''result'', JStr ''r'')]\<rparr>,
      \<lparr>ptype = ''tool-result'',
       props = [(''toolCallId'', JStr ''c9''), (''result'', JStr ''r'')]\<rparr>]"

text \<open>A batch of one extended tool part that has neither a call identifier nor a state.\<close>

definition bare_tool_batch :: "ui_part list" where
  "bare_tool_batch = [ExtendedToolPart ''tool-fetch'' None None None (Some (JStr ''u'')) None]"







section \<open>The search provider: merging result sets\<close>

text \<open>
  \<open>TavilySearchProvider.mergeResults\<close>. A result item has a URL and, in the provider's
  extended type, an optional relevance score; scores are compared as numbers, so they
  are rationals here. An image is a URL string or an object with a URL and a
  description. Of a result set the merge reads \<open>results\<close>, \<open>images\<close>, \<open>query\<close> and
  \<open>answer\<close>, each of which may be missing.
\<close>

record search_item =
  title :: string
  url :: string
  content :: string
  score :: "rat option"

datatype search_image = ImageString string | ImageObject string string

record search_results =
  results :: "search_item list option"
  images :: "search_image list option"
  query :: "string option"
  answer :: "string option"


text \<open>\<open>typeof image === 'string' ? image : image.url\<close>.\<close>

fun imgUrl :: "search_image \<Rightarrow> string" where
  "imgUrl (ImageString s) = s"
| "imgUrl (ImageObject u d) = u"

text \<open>\<open>typeof image === 'string' ? { url: image, description: '' } : image\<close>.\<close>

fun imageObject :: "search_image \<Rightarrow> search_image" where
  "imageObject (ImageString s) = ImageObject s []"
| "imageObject (ImageObject u d) = ImageObject u d"


text \<open>\<open>xs || []\<close> on a possibly missing array, and \<open>a || b\<close> on possibly missing strings.\<close>

definition orEmpty :: "'a list option \<Rightarrow> 'a list" where
  "orEmpty xs = (case xs of None \<Rightarrow> [] | Some ys \<Rightarrow> ys)"













section \<open>The search provider: the result cache\<close>

text \<open>
  The cache of \<open>TavilySearchProvider\<close> is a JavaScript \<open>Map\<close> from the cache key to
  the entry. A \<open>Map\<close> iterates in insertion order: setting a new key appends it,
  setting a present key keeps its place, deleting a key keeps the order of the
  others. So the cache is the list of its entries in insertion order, and its first
  key is the earliest-inserted key that is still present.
\<close>

record cache_entry =
  data :: search_results
  timestamp :: int

type_synonym cache = "(string \<times> cache_entry) list"

definition MAX_CACHE_SIZE :: nat where
  "MAX_CACHE_SIZE = 100"

definition CACHE_TTL :: int where
  "CACHE_TTL = 5 * 60 * 1000"

text \<open>\<open>Map.prototype.get\<close>, \<open>set\<close>, \<open>delete\<close> and \<open>keys().next().value\<close>.\<close>

definition mapGet :: "string \<Rightarrow> cache \<Rightarrow> cache_entry option" where
  "mapGet k m = map_of m k"

definition mapSet :: "string \<Rightarrow> cache_entry \<Rightarrow> cache \<Rightarrow> cache" where
  "mapSet k v m =
     (if k \<in> set (map fst m) then map (\<lambda>(k', v'). if k' = k then (k', v) else (k', v')) m
      else m @ [(k, v)])"

definition mapDelete :: "string \<Rightarrow> cache \<Rightarrow> cache" where
  "mapDelete k m = filter (\<lambda>(k', v'). k' \<noteq> k) m"

definition firstKey :: "cache \<Rightarrow> string option" where
  "firstKey m = (case m of [] \<Rightarrow> None | (k, v) # rest \<Rightarrow> Some k)"

text \<open>
  \<open>getCacheKey\<close>: \<open>JSON.stringify\<close> of an object literal with five properties. The
  JavaScript built-ins it applies to the arguments are parameters: \<open>toLowerCase\<close>,
  \<open>trim\<close>, the default \<open>sort\<close> of a string array, and \<open>JSON.stringify\<close> on a string
  (\<open>quote\<close>) and on a number (\<open>num\<close>).
\<close>

record js_builtins =
  toLowerCase :: "string \<Rightarrow> string"
  trim :: "string \<Rightarrow> string"
  sortStrings :: "string list \<Rightarrow> string list"
  quote :: "string \<Rightarrow> string"
  num :: "int \<Rightarrow> string"

definition stringifyArray :: "js_builtins \<Rightarrow> string list \<Rightarrow> string" where
  "stringifyArray js xs = ''['' @ join '','' (map (quote js) xs) @ '']''"

definition getCacheKey ::
  "js_builtins \<Rightarrow> string \<Rightarrow> int \<Rightarrow> string \<Rightarrow> string list \<Rightarrow> string list \<Rightarrow> string" where
  "getCacheKey js q maxResults searchDepth includeDomains excludeDomains =
     ''{'' @ quote js ''query'' @ '':'' @ quote js (trim js (toLowerCase js q)) @ '','' @
     quote js ''maxResults'' @ '':'' @ num js maxResults @ '','' @
     quote js ''searchDepth'' @ '':'' @ quote js searchDepth @ '','' @
     quote js ''includeDomains'' @ '':'' @ stringifyArray js (sortStrings js includeDomains) @ '','' @
     quote js ''excludeDomains'' @ '':'' @ stringifyArray js (sortStrings js excludeDomains) @ ''}''"

text \<open>\<open>getFromCache\<close>: the cached data, if any and not expired, and the cache afterwards.\<close>

definition getFromCache :: "string \<Rightarrow> int \<Rightarrow> cache \<Rightarrow> search_results option \<times> cache" where
  "getFromCache key now c =
     (case mapGet key c of
        None \<Rightarrow> (None, c)
      | Some entry \<Rightarrow>
          let age = now - timestamp entry in
          if age > CACHE_TTL then (None, mapDelete key c) else (Some (data entry), c))"

text \<open>\<open>setCache\<close>; \<open>now\<close> is the value of \<open>Date.now()\<close>.\<close>

definition setCache :: "string \<Rightarrow> search_results \<Rightarrow> int \<Rightarrow> cache \<Rightarrow> cache" where
  "setCache key d now c =
     (let c1 = (if length c \<ge> MAX_CACHE_SIZE
                then (case firstKey c of
                        Some k \<Rightarrow> if k \<noteq> [] then mapDelete k c else c
                      | None \<Rightarrow> c)
                else c)
      in mapSet key \<lparr>data = d, timestamp = now\<rparr> c1)"

definition clearCache :: "cache \<Rightarrow> cache" where
  "clearCache c = []"

text \<open>
  The caches the provider can hold: it starts empty, and \<open>search\<close> is the only caller
  of \<open>getFromCache\<close> and \<open>setCache\<close>, always with a key made by \<open>getCacheKey\<close>.
\<close>

inductive reachable :: "js_builtins \<Rightarrow> cache \<Rightarrow> bool" for js where
  empty: "reachable js []"
| set: "reachable js c \<Longrightarrow>
          reachable js (setCache (getCacheKey js q n depth inc exc) d now c)"
| get: "reachable js c \<Longrightarrow>
          reachable js (snd (getFromCache (getCacheKey js q n depth inc exc) now c))"
| clear: "reachable js c \<Longrightarrow> reachable js (clearCache c)"

text \<open>
  A cache filled by \<open>n\<close> searches for \<open>n\<close> different queries, with built-ins that
  leave strings as they are.
\<close>

definition plain_builtins :: js_builtins where
  "plain_builtins =
     \<lparr>toLowerCase = (\<lambda>s. s), trim = (\<lambda>s. s), sortStrings = (\<lambda>xs. xs), quote = (\<lambda>s. s),
      num = (\<lambda>n. ''10'')\<rparr>"

definition empty_results :: search_results where
  "empty_results = \<lparr>results = Some [], images = Some [], query = None, answer = None\<rparr>"

definition nthKey :: "nat \<Rightarrow> string" where
  "nthKey i = getCacheKey plain_builtins (replicate i CHR ''x'') 10 ''basic'' [] []"

fun filledCache :: "nat \<Rightarrow> cache" where
  "filledCache 0 = []"
| "filledCache (Suc n) = setCache (nthKey n) empty_results 0 (filledCache n)"

section \<open>The search tool\<close>

text \<open>
  \<open>createSearchTool\<close>: what \<open>execute\<close> asks of the search back end. The environment
  variables it reads and the default provider (a constant of the provider module) are
  parameters. An input that is absent is \<open>None\<close> and takes the default of the
  parameter list: \<open>type = 'optimized'\<close>, \<open>content_types = ['web']\<close>, \<open>max_results = 20\<close>,
  \<open>search_depth = 'basic'\<close>, no domains.
\<close>

record search_env =
  SEARCH_API :: "string option"
  SEARXNG_DEFAULT_DEPTH :: "string option"
  DEFAULT_PROVIDER :: string

text \<open>
  The request: the body posted to \<open>/api/advanced-search\<close> (query, maxResults,
  searchDepth, includeDomains, excludeDomains), or the arguments of the provider's
  \<open>search\<close> (after the provider's name), with the options passed to Brave only.
\<close>

datatype search_call =
    AdvancedSearchApi string int string "string list" "string list"
  | ProviderSearch string string int string "string list" "string list"
      "(string \<times> string list) option"

fun callMaxResults :: "search_call \<Rightarrow> int" where
  "callMaxResults (AdvancedSearchApi q m depth inc exc) = m"
| "callMaxResults (ProviderSearch api q m depth inc exc opts) = m"

text \<open>\<open>a || b\<close> on strings.\<close>

definition orString :: "string \<Rightarrow> string \<Rightarrow> string" where
  "orString a b = (if a \<noteq> [] then a else b)"

text \<open>\<open>Math.max(max_results || minResults, minResults)\<close>, after the default \<open>20\<close>.\<close>

definition effectiveMaxResults :: "int option \<Rightarrow> int" where
  "effectiveMaxResults max_results_opt =
     (let max_results = (case max_results_opt of None \<Rightarrow> 20 | Some n \<Rightarrow> n);
          minResults = 10
      in max (if max_results \<noteq> 0 then max_results else minResults) minResults)"

definition searchProviderCall ::
  "search_env \<Rightarrow> string \<Rightarrow> string option \<Rightarrow> string list option \<Rightarrow> int option \<Rightarrow> string option \<Rightarrow>
   string list option \<Rightarrow> string list option \<Rightarrow> search_call" where
  "searchProviderCall env q type_opt content_types_opt max_results_opt search_depth_opt
       include_domains_opt exclude_domains_opt =
     (let search_type = (case type_opt of None \<Rightarrow> ''optimized'' | Some t \<Rightarrow> t);
          content_types = (case content_types_opt of None \<Rightarrow> [''web''] | Some c \<Rightarrow> c);
          search_depth = (case search_depth_opt of None \<Rightarrow> ''basic'' | Some d \<Rightarrow> d);
          include_domains = orEmpty include_domains_opt;
          exclude_domains = orEmpty exclude_domains_opt;
          effectiveMax = effectiveMaxResults max_results_opt;
          filledQuery = q;
          searchAPI =
            (if search_type = ''general'' then ''brave''
             else orString (case SEARCH_API env of None \<Rightarrow> [] | Some a \<Rightarrow> a) (DEFAULT_PROVIDER env));
          effectiveSearchDepthForAPI =
            (if searchAPI = ''searxng'' \<and> SEARXNG_DEFAULT_DEPTH env = Some ''advanced''
             then ''advanced'' else orString search_depth ''basic'')
      in
      if searchAPI = ''searxng'' \<and> effectiveSearchDepthForAPI = ''advanced'' then
        AdvancedSearchApi filledQuery effectiveMax effectiveSearchDepthForAPI
          include_domains exclude_domains
      else if searchAPI = ''brave'' then
        ProviderSearch searchAPI filledQuery effectiveMax effectiveSearchDepthForAPI
          include_domains exclude_domains (Some (search_type, content_types))
      else
        ProviderSearch searchAPI filledQuery effectiveMax effectiveSearchDepthForAPI
          include_domains exclude_domains None)"

text \<open>
  The events of \<open>execute\<close>. \<open>execute\<close> is an async generator: it yields the
  \<open>searching\<close> event, sends the request, and yields the \<open>complete\<close> event, or throws
  the back end's error. The back end (the provider's \<open>search\<close>, or the advanced search
  route) is a parameter that answers a request with an error or with the properties
  of a \<open>SearchResults\<close> object; the tool call's context carries the call identifier.
\<close>

record search_input =
  in_query :: string
  in_type :: "string option"
  in_content_types :: "string list option"
  in_max_results :: "int option"
  in_search_depth :: "string option"
  in_include_domains :: "string list option"
  in_exclude_domains :: "string list option"

record tool_context =
  ctx_toolCallId :: "string option"

text \<open>
  What calling a tool's \<open>execute\<close> returns: an async iterable (the chunks it yields
  and the exception that ends it, if one does), or a promise (the value it resolves
  to, or the error it rejects with).
\<close>

datatype tool_output =
    AsyncIterable "jsval list" "js_error option"
  | Awaited jsval
  | Rejected js_error

text \<open>Assigning a property of an object: a present key keeps its place.\<close>

definition objSet :: "string \<Rightarrow> jsval \<Rightarrow> (string \<times> jsval) list \<Rightarrow> (string \<times> jsval) list" where
  "objSet k v ps =
     (if k \<in> set (map fst ps) then map (\<lambda>(k', v'). if k' = k then (k', v) else (k', v')) ps
      else ps @ [(k, v)])"

definition citationMap :: "jsval list \<Rightarrow> jsval" where
  "citationMap rs = JObj (map (\<lambda>(index, result). (string_of_nat (index + 1), result)) (enumerate 0 rs))"

definition completeEvent :: "(string \<times> jsval) list \<Rightarrow> tool_context \<Rightarrow> jsval" where
  "completeEvent searchResult context =
     (let withCitations =
            (case map_of searchResult ''results'' of
               Some (JArr (r # rs)) \<Rightarrow> objSet ''citationMap'' (citationMap (r # rs)) searchResult
             | _ \<Rightarrow> searchResult);
          withCallId =
            (case ctx_toolCallId context of
               Some c \<Rightarrow> if c \<noteq> [] then objSet ''toolCallId'' (JStr c) withCitations
                         else withCitations
             | None \<Rightarrow> withCitations)
      in JObj (foldl (\<lambda>obj (k, v). objSet k v obj) [(''state'', JStr ''complete'')] withCallId))"

definition searchExecute ::
  "search_env \<Rightarrow> (search_call \<Rightarrow> js_error + (string \<times> jsval) list) \<Rightarrow> search_input \<Rightarrow>
   tool_context \<Rightarrow> tool_output" where
  "searchExecute env backend params context =
     (let searching = JObj [(''state'', JStr ''searching''), (''query'', JStr (in_query params))];
          call = searchProviderCall env (in_query params) (in_type params)
                   (in_content_types params) (in_max_results params) (in_search_depth params)
                   (in_include_domains params) (in_exclude_domains params)
      in case backend call of
           Inl e \<Rightarrow> AsyncIterable [searching] (Some e)
         | Inr searchResult \<Rightarrow> AsyncIterable [searching, completeEvent searchResult context] None)"

record search_tool =
  description :: string
  inputSchema :: jsval
  execute :: "(search_input \<Rightarrow> tool_context \<Rightarrow> tool_output) option"

text \<open>
  \<open>createSearchTool\<close>; the schema chosen for the model (\<open>getSearchSchemaForModel\<close>, of
  the schema module) is a parameter.
\<close>

definition createSearchTool ::
  "(string \<Rightarrow> jsval) \<Rightarrow> search_env \<Rightarrow> (search_call \<Rightarrow> js_error + (string \<times> jsval) list) \<Rightarrow>
   string \<Rightarrow> search_tool" where
  "createSearchTool getSearchSchemaForModel env backend fullModel =
     \<lparr>description =
        ''Search the web for information. For YouTube/video content, use type='' @ [CHR 0x22] @
        ''general'' @ [CHR 0x22] @ '' with content_types:['' @ [CHR 0x22] @ ''video'' @ [CHR 0x22] @
        ''] for optimal visual presentation with thumbnails.'',
      inputSchema = getSearchSchemaForModel fullModel,
      execute = Some (searchExecute env backend)\<rparr>"

section \<open>The researcher agent\<close>

text \<open>
  \<open>wrapSearchToolForQuickMode\<close>: a tool with the original's description and schema
  whose \<open>execute\<close> is an async generator. It throws when the original has no
  \<open>execute\<close>; otherwise it calls the original with \<open>type\<close> overridden and yields every
  chunk of an async iterable (an exception of the iteration goes through), or the one
  value of a promise, replaced by an empty \<open>complete\<close> event when it is falsy.
\<close>

definition emptyComplete :: "string \<Rightarrow> jsval" where
  "emptyComplete q =
     JObj [(''state'', JStr ''complete''), (''results'', JArr []), (''images'', JArr []),
           (''query'', JStr q), (''number_of_results'', JNum 0)]"

definition wrapSearchToolForQuickMode :: "search_tool \<Rightarrow> search_tool" where
  "wrapSearchToolForQuickMode originalTool =
     \<lparr>description = description originalTool,
      inputSchema = inputSchema originalTool,
      execute = Some (\<lambda>params context.
        case execute originalTool of
          None \<Rightarrow> AsyncIterable [] (Some (Error ''Search tool execute function is not defined''))
        | Some executeFunc \<Rightarrow>
            let modifiedParams = params\<lparr>in_type := Some ''optimized''\<rparr> in
            (case executeFunc modifiedParams context of
               AsyncIterable chunks err \<Rightarrow> AsyncIterable chunks err
             | Awaited finalResult \<Rightarrow>
                 AsyncIterable [js_or finalResult (emptyComplete (in_query params))] None
             | Rejected e \<Rightarrow> AsyncIterable [] (Some e)))\<rparr>"

text \<open>
  The tools of the agent. Only the search tool is looked into; the fetch tool, the
  question tool and the todo tools are imported objects.
\<close>

datatype agent_tool = SearchTool search_tool | FetchTool | QuestionTool | TodoTool string

text \<open>
  Modelled from the spec: \<open>createTodoTools\<close> (\<open>lib/tools/todo\<close>) is not among the
  sources. The specification gives the planning and adaptive modes the tools
  \<open>todoWrite\<close> and \<open>todoRead\<close>, available only when a result-streaming sink is present; so
  the function returns an object with these two tools.
\<close>

definition createTodoTools :: "(string \<times> agent_tool) list" where
  "createTodoTools = [(''todoWrite'', TodoTool ''todoWrite''), (''todoRead'', TodoTool ''todoRead'')]"

text \<open>
  What \<open>createResearcher\<close> depends on and the sources do not hold: the three mode
  prompts, the date string, the schema of the search tool, the environment and the
  back end of the search tool, and the model factory \<open>getModel\<close>, which may throw.
\<close>

record researcher_deps =
  QUICK_MODE_PROMPT :: string
  PLANNING_MODE_PROMPT :: string
  ADAPTIVE_MODE_PROMPT :: string
  currentDate :: string
  schemaForModel :: "string \<Rightarrow> jsval"
  searchEnv :: search_env
  searchBackend :: "search_call \<Rightarrow> js_error + (string \<times> jsval) list"
  getModel :: "string \<Rightarrow> js_error + string"

text \<open>
  The configuration handed to \<open>streamText\<close>: the model, the system prompt, the tools,
  the active tools, the step budget of \<open>stopWhen: stepCountIs(maxSteps)\<close>, and
  \<open>prepareStep\<close>, which gives the tool a step is forced to call, if any. (The abort
  signal, the stream transform, the provider options and the telemetry settings are
  passed on as they are and left out.)
\<close>

record agent_config =
  cfg_model :: string
  system :: string
  tools :: "(string \<times> agent_tool) list"
  activeTools :: "string list"
  maxSteps :: nat
  prepareStep :: "(nat \<Rightarrow> string option) option"

definition createResearcher ::
  "researcher_deps \<Rightarrow> string \<Rightarrow> bool \<Rightarrow> string option \<Rightarrow> js_error + agent_config" where
  "createResearcher deps model_id writer searchMode_opt =
     (let searchMode = (case searchMode_opt of None \<Rightarrow> ''adaptive'' | Some m \<Rightarrow> m);
          originalSearchTool =
            createSearchTool (schemaForModel deps) (searchEnv deps) (searchBackend deps) model_id;
          todoTools = (if writer then createTodoTools else []);
          withTodo = (\<lambda>active. if writer \<and> ''todoWrite'' \<in> set (map fst todoTools)
                               then active @ [''todoWrite'', ''todoRead''] else active);
          (systemPrompt, activeToolsList, steps, searchTool) =
            (if searchMode = ''quick'' then
               (QUICK_MODE_PROMPT deps, [''search'', ''fetch''], 20,
                wrapSearchToolForQuickMode originalSearchTool)
             else if searchMode = ''planning'' then
               (PLANNING_MODE_PROMPT deps, withTodo [''search'', ''fetch''], 50, originalSearchTool)
             else
               (ADAPTIVE_MODE_PROMPT deps, withTodo [''search'', ''fetch''], 50, originalSearchTool));
          allTools = [(''search'', SearchTool searchTool), (''fetch'', FetchTool),
                      (''askQuestion'', QuestionTool)] @ todoTools;
          shouldForceTodoWrite =
            (searchMode = ''planning'' \<and> writer \<and> ''todoWrite'' \<in> set (map fst todoTools))
      in case getModel deps model_id of
           Inl e \<Rightarrow> Inl e
         | Inr m \<Rightarrow>
             Inr \<lparr>cfg_model = m,
                  system = systemPrompt @ [CHR 0x0A] @ ''Current date and time: '' @ currentDate deps,
                  tools = allTools,
                  activeTools = activeToolsList,
                  maxSteps = steps,
                  prepareStep =
                    (if shouldForceTodoWrite
                     then Some (\<lambda>stepNumber. if stepNumber = 0 then Some ''todoWrite'' else None)
                     else None)\<rparr>)"

text \<open>Dependencies for an example: a model factory that returns, a back end with one result.\<close>

definition example_deps :: researcher_deps where
  "example_deps =
     \<lparr>QUICK_MODE_PROMPT = ''quick'', PLANNING_MODE_PROMPT = ''plan'', ADAPTIVE_MODE_PROMPT = ''adapt'',
      currentDate = ''today'', schemaForModel = (\<lambda>m. JNull),
      searchEnv = \<lparr>SEARCH_API = None, SEARXNG_DEFAULT_DEPTH = None, DEFAULT_PROVIDER = ''tavily''\<rparr>,
      searchBackend = (\<lambda>c. Inr [(''results'', JArr [JStr ''r1''])]),
      getModel = (\<lambda>m. Inr m)\<rparr>"

section \<open>The conversation orchestrator\<close>

text \<open>
  A \<open>UIMessage\<close> (identifier, role, parts) and a loaded chat, of which
  \<open>prepareMessages\<close> reads the messages only.
\<close>

record message =
  msg_id :: string
  msg_role :: string
  msg_parts :: "ui_part list"

record chat =
  messages :: "message list"

text \<open>
  Modelled from the spec: the storage behind the actions of \<open>lib/actions/chat\<close>, which
  are not among the sources. It holds, for the identifier of each conversation that
  exists, the messages of the conversation in order.
\<close>

type_synonym storage = "string \<Rightarrow> message list option"

text \<open>
  Modelled from the spec: \<open>loadChat\<close> (\<open>lib/actions/chat\<close>, not among the sources) reads
  the conversation with its messages from storage, if it exists.
\<close>

definition loadChat :: "string \<Rightarrow> string \<Rightarrow> storage \<Rightarrow> chat option" where
  "loadChat cid uid st = map_option (\<lambda>ms. \<lparr>messages = ms\<rparr>) (st cid)"

text \<open>
  Modelled from the spec: \<open>deleteMessagesFromIndex\<close> (\<open>lib/actions/chat\<close>, not among the
  sources) deletes the message with the given identifier and everything after it.
\<close>

definition deleteMessagesFromIndex :: "string \<Rightarrow> string \<Rightarrow> string \<Rightarrow> storage \<Rightarrow> storage" where
  "deleteMessagesFromIndex cid mid uid st =
     (case st cid of
        None \<Rightarrow> st
      | Some ms \<Rightarrow> st(cid \<mapsto> takeWhile (\<lambda>m. msg_id m \<noteq> mid) ms))"

text \<open>
  Modelled from the spec: \<open>upsertMessage\<close> (\<open>lib/actions/chat\<close>, not among the sources)
  persists a message, replacing the one with the same identifier if there is one.
\<close>

definition upsertMessage :: "string \<Rightarrow> message \<Rightarrow> string \<Rightarrow> storage \<Rightarrow> storage" where
  "upsertMessage cid msg uid st =
     (case st cid of
        None \<Rightarrow> st(cid \<mapsto> [msg])
      | Some ms \<Rightarrow>
          if msg_id msg \<in> set (map msg_id ms)
          then st(cid \<mapsto> map (\<lambda>m. if msg_id m = msg_id msg then msg else m) ms)
          else st(cid \<mapsto> ms @ [msg]))"

text \<open>
  Modelled from the spec: \<open>createChat\<close> (\<open>lib/actions/chat\<close>, not among the sources)
  ensures that the conversation exists.
\<close>

definition createChat :: "string \<Rightarrow> string \<Rightarrow> string \<Rightarrow> storage \<Rightarrow> storage" where
  "createChat cid chatTitle uid st = (case st cid of None \<Rightarrow> st(cid \<mapsto> []) | Some ms \<Rightarrow> st)"

text \<open>
  Modelled from the spec: \<open>createChatWithFirstMessage\<close> (\<open>lib/actions/chat\<close>, not among
  the sources) persists the conversation and its first message together.
\<close>

definition createChatWithFirstMessage ::
  "string \<Rightarrow> message \<Rightarrow> string \<Rightarrow> string \<Rightarrow> storage \<Rightarrow> storage" where
  "createChatWithFirstMessage cid msg uid chatTitle st = st(cid \<mapsto> [msg])"

text \<open>\<open>Array.prototype.findIndex\<close> and \<open>findLastIndex\<close>: the index, or \<open>-1\<close>.\<close>

fun findIndex :: "('a \<Rightarrow> bool) \<Rightarrow> 'a list \<Rightarrow> int" where
  "findIndex P [] = - 1"
| "findIndex P (x # xs) =
     (if P x then 0 else (let i = findIndex P xs in if i = - 1 then - 1 else i + 1))"

definition findLastIndex :: "('a \<Rightarrow> bool) \<Rightarrow> 'a list \<Rightarrow> int" where
  "findLastIndex P xs =
     (let i = findIndex P (rev xs) in if i = - 1 then - 1 else int (length xs) - 1 - i)"

text \<open>
  The \<open>StreamContext\<close> fields that \<open>prepareMessages\<close> reads, and what it leaves: the
  messages it returns, the storage after the awaited actions, and the two context
  fields it sets for a new chat (the save that is still pending, as the action it
  will perform on the storage, and the first user message).
\<close>

record stream_context =
  chatId :: string
  userId :: string
  trigger :: string
  ctx_messageId :: "string option"
  initialChat :: "chat option"
  isNewChat :: bool

record prepared =
  history :: "message list"
  store :: storage
  pendingInitialSave :: "(storage \<Rightarrow> storage) option"
  pendingInitialUserMessage :: "message option"

definition DEFAULT_CHAT_TITLE :: string where
  "DEFAULT_CHAT_TITLE = ''Untitled''"

text \<open>
  \<open>prepareMessages\<close>; \<open>newId\<close> is the identifier \<open>generateId()\<close> returns. The first
  branch is taken when the trigger is \<open>regenerate-message\<close> and the target message
  identifier is truthy.
\<close>

definition prepareMessages ::
  "string \<Rightarrow> stream_context \<Rightarrow> message option \<Rightarrow> storage \<Rightarrow> js_error + prepared" where
  "prepareMessages newId context message_opt st =
    (let cid = chatId context; uid = userId context;
         mid = (case ctx_messageId context of None \<Rightarrow> [] | Some m \<Rightarrow> m)
     in
     if trigger context = ''regenerate-message'' \<and> mid \<noteq> [] then
       (let currentChat = (case initialChat context of
                             Some c \<Rightarrow> Some c
                           | None \<Rightarrow> loadChat cid uid st)
        in case currentChat of
          None \<Rightarrow> Inl (Error ''No messages found'')
        | Some current \<Rightarrow>
            if length (messages current) = 0 then Inl (Error ''No messages found'')
            else
              let byId = findIndex (\<lambda>m. msg_id m = mid) (messages current);
                  lastAssistantIndex = findLastIndex (\<lambda>m. msg_role m = ''assistant'') (messages current);
                  lastUserIndex = findLastIndex (\<lambda>m. msg_role m = ''user'') (messages current)
              in
              if byId = - 1 \<and> \<not> (lastAssistantIndex \<ge> 0 \<or> lastUserIndex \<ge> 0) then
                Inl (Error (''Message '' @ mid @ '' not found and no fallback available''))
              else
                let messageIndex = (if byId = - 1 then max lastAssistantIndex lastUserIndex else byId);
                    targetMessage = messages current ! nat messageIndex
                in
                if msg_role targetMessage = ''assistant'' then
                  Inr \<lparr>history = take (nat messageIndex) (messages current),
                       store = deleteMessagesFromIndex cid mid uid st,
                       pendingInitialSave = None, pendingInitialUserMessage = None\<rparr>
                else
                  let st1 = (case message_opt of
                               Some m \<Rightarrow> if msg_id m = mid then upsertMessage cid m uid st else st
                             | None \<Rightarrow> st);
                      messagesToDelete = drop (nat (messageIndex + 1)) (messages current);
                      st2 = (if length messagesToDelete > 0
                             then deleteMessagesFromIndex cid (msg_id (messagesToDelete ! 0)) uid st1
                             else st1)
                  in Inr \<lparr>history =
                            (case loadChat cid uid st2 of
                               Some updatedChat \<Rightarrow> messages updatedChat
                             | None \<Rightarrow> take (nat (messageIndex + 1)) (messages current)),
                          store = st2,
                          pendingInitialSave = None, pendingInitialUserMessage = None\<rparr>)
     else
       (case message_opt of
          None \<Rightarrow> Inl (Error ''No message provided'')
        | Some message \<Rightarrow>
            let messageWithId =
                  message\<lparr>msg_id := (if msg_id message \<noteq> [] then msg_id message else newId)\<rparr>
            in
            if isNewChat context then
              Inr \<lparr>history = [messageWithId],
                   store = st,
                   pendingInitialSave =
                     Some (createChatWithFirstMessage cid messageWithId uid DEFAULT_CHAT_TITLE),
                   pendingInitialUserMessage = Some messageWithId\<rparr>
            else
              let st1 = (case initialChat context of
                           None \<Rightarrow> createChat cid DEFAULT_CHAT_TITLE uid st
                         | Some c \<Rightarrow> st);
                  st2 = upsertMessage cid messageWithId uid st1
              in (case initialChat context of
                    Some c \<Rightarrow>
                      Inr \<lparr>history = messages c @ [messageWithId], store = st2,
                           pendingInitialSave = None, pendingInitialUserMessage = None\<rparr>
                  | None \<Rightarrow>
                      Inr \<lparr>history =
                             (case loadChat cid uid st2 of
                                Some updatedChat \<Rightarrow> messages updatedChat
                              | None \<Rightarrow> [messageWithId]),
                           store = st2,
                           pendingInitialSave = None, pendingInitialUserMessage = None\<rparr>)))"

text \<open>The specification's example history and a storage that holds it.\<close>

definition example_history :: "message list" where
  "example_history =
     [\<lparr>msg_id = ''user1'', msg_role = ''user'', msg_parts = []\<rparr>,
      \<lparr>msg_id = ''assistant1'', msg_role = ''assistant'', msg_parts = []\<rparr>,
      \<lparr>msg_id = ''user2'', msg_role = ''user'', msg_parts = []\<rparr>,
      \<lparr>msg_id = ''assistant2'', msg_role = ''assistant'', msg_parts = []\<rparr>]"

definition example_storage :: storage where
  "example_storage = Map.empty(''chat1'' \<mapsto> example_history)"

definition example_context :: stream_context where
  "example_context =
     \<lparr>chatId = ''chat1'', userId = ''u1'', trigger = ''regenerate-message'',
      ctx_messageId = Some ''assistant2'', initialChat = None, isNewChat = False\<rparr>"

chapter \<open>Properties\<close>

section \<open>Encoding: order and totality\<close>

lemma collect_map_Inr: "collect (map Inr xs) = Inr xs"
  by (induction xs) auto

lemma collect_Inr_D: "collect ms = Inr xs \<Longrightarrow> ms = map Inr xs"
proof (induction ms arbitrary: xs)
  case Nil
  then show ?case by auto
next
  case (Cons m ms)
  then show ?case by (cases m) (auto split: sum.splits)
qed

lemma collect_total: "(\<forall>m \<in> set ms. \<exists>x. m = Inr x) \<Longrightarrow> \<exists>xs. collect ms = Inr xs"
  by (induction ms) (auto split: sum.splits)

lemma order_reindex:
  "map order (map (\<lambda>(index, part). part\<lparr>order := index\<rparr>) (enumerate n ys)) = [n..<n + length ys]"
  by (induction ys arbitrary: n) (auto simp: upt_rec)

lemma nth_reindex:
  "k < length ys \<Longrightarrow>
     map (\<lambda>(index, part). part\<lparr>order := index\<rparr>) (enumerate 0 ys) ! k = (ys ! k)\<lparr>order := k\<rparr>"
  by (simp add: nth_enumerate_eq)

lemma filter_by_index:
  "filter P xs = map (\<lambda>i. xs ! i) (filter (\<lambda>i. P (xs ! i)) [0..<length xs])"
proof -
  have "filter P (map (\<lambda>i. xs ! i) [0..<length xs]) =
        map (\<lambda>i. xs ! i) (filter (\<lambda>i. P (xs ! i)) [0..<length xs])"
    by (simp add: filter_map comp_def)
  then show ?thesis by (simp add: map_nth)
qed

lemma getToolNameFromType_string: "is_string v \<Longrightarrow> \<exists>n. getToolNameFromType v = Inr n"
  by (cases v) (auto split: option.splits)

lemma mapPart_total:
  assumes "toolNamesTyped parts" and "p \<in> set parts"
  shows "\<exists>r. mapPart newId parts mid p i = Inr r"
proof -
  have dyn: "ptype p = ''dynamic-tool'' \<Longrightarrow> is_string (get p ''toolName'')"
    using assms by (auto simp: toolNamesTyped_def)
  have res: "ptype p = ''tool-result'' \<Longrightarrow>
      \<exists>n. getToolNameFromCallId (get p ''toolCallId'') parts = Inr n"
  proof -
    assume t: "ptype p = ''tool-result''"
    show ?thesis
    proof (cases "find (\<lambda>part. ptype part = ''tool-call'' \<and>
                     strict_eq (get part ''toolCallId'') (get p ''toolCallId'')) parts")
      case None
      then show ?thesis by (simp add: getToolNameFromCallId_def)
    next
      case (Some q)
      then have "q \<in> set parts" "ptype q = ''tool-call''"
          "strict_eq (get q ''toolCallId'') (get p ''toolCallId'')"
        by (auto simp: find_Some_iff)
      then have "is_string (get q ''toolName'')"
        using assms t by (auto simp: toolNamesTyped_def)
      then show ?thesis using Some
        by (simp add: getToolNameFromCallId_def getToolNameFromType_string)
    qed
  qed
  have call: "isToolCallPart p \<Longrightarrow> \<exists>n. getToolNameFromType (get p ''toolName'') = Inr n"
    by (simp add: isToolCallPart_def getToolNameFromType_string)
  show ?thesis
  proof (cases "ptype p = ''tool-result''")
    case True
    then obtain n where "getToolNameFromCallId (get p ''toolCallId'') parts = Inr n"
      using res by blast
    then show ?thesis using True by (simp add: mapPart_def Let_def)
  next
    case nres: False
    show ?thesis
    proof (cases "ptype p = ''dynamic-tool''")
      case True
      then obtain s where "get p ''toolName'' = JStr s"
        using dyn by (cases "get p ''toolName''") auto
      then show ?thesis using True by (simp add: mapPart_def Let_def)
    next
      case ndyn: False
      show ?thesis
      proof (cases "ptype p = ''tool-call''")
        case True
        show ?thesis
        proof (cases "isToolCallPart p")
          case False
          then show ?thesis using True by (simp add: mapPart_def Let_def)
        next
          case c: True
          then obtain n where "getToolNameFromType (get p ''toolName'') = Inr n"
            using call by blast
          then show ?thesis using True c by (simp add: mapPart_def Let_def)
        qed
      next
        case False
        then show ?thesis using nres ndyn by (simp add: mapPart_def Let_def)
      qed
    qed
  qed
qed


lemma order_withCols [simp]: "order (withCols kvs r) = order r"
  unfolding withCols_def
  by (induction kvs arbitrary: r) (auto simp: setCol_def)

lemma messageId_withCols [simp]: "messageId (withCols kvs r) = messageId r"
  unfolding withCols_def
  by (induction kvs arbitrary: r) (auto simp: setCol_def)

lemma type_withCols [simp]: "type (withCols kvs r) = type r"
  unfolding withCols_def
  by (induction kvs arbitrary: r) (auto simp: setCol_def)

lemma order_createToolPartMapping [simp]:
  "order (createToolPartMapping newId b p n) = order b"
  by (simp add: createToolPartMapping_def)

lemma mapPart_order_aux:
  "rowHas (\<lambda>r. order r = i) (mapPart newId parts mid p i)"
proof (cases "ptype p \<in> set knownTags")
  case False
  then show ?thesis by (simp add: mapPart_def Let_def knownTags_def)
next
  case True
  then consider "ptype p = ''text''" | "ptype p = ''reasoning''" | "ptype p = ''file''"
    | "ptype p = ''source-url''" | "ptype p = ''source-document''" | "ptype p = ''tool-call''"
    | "ptype p = ''tool-result''" | "ptype p = ''step-start''" | "ptype p = ''step-result''"
    | "ptype p = ''step-continue''" | "ptype p = ''step-finish''" | "ptype p = ''dynamic-tool''"
    | "ptype p = ''tool-search''" | "ptype p = ''tool-fetch''" | "ptype p = ''tool-question''"
    | "ptype p = ''tool-todoWrite''" | "ptype p = ''tool-todoRead''"
    unfolding knownTags_def by fastforce
  then show ?thesis
    by cases (simp_all add: mapPart_def Let_def split: sum.split option.split jsval.split)
qed

lemma mapPart_order: "mapPart newId parts mid p i = Inr (Some r) \<Longrightarrow> order r = i"
  using mapPart_order_aux[of i newId parts mid p] by simp

lemma encode_rows:
  assumes enc: "mapUIMessagePartsToDBParts gen parts mid = Inr rows"
  shows "map order rows = [0..<length rows]"
    and "length rows = length (survivors gen parts mid)"
    and "\<forall>k<length rows.
           mapPart (gen (survivors gen parts mid ! k)) parts mid
             (parts ! (survivors gen parts mid ! k)) (survivors gen parts mid ! k) =
           Inr (Some ((rows ! k)\<lparr>order := survivors gen parts mid ! k\<rparr>))"
proof -
  define f where "f = (\<lambda>(index, part). mapPart (gen index) parts mid part index)"
  define ms where "ms = map f (enumerate 0 parts)"
  define s where "s = survivors gen parts mid"
  obtain xs where xs: "collect ms = Inr xs"
    and rows: "rows = map (\<lambda>(index, part). part\<lparr>order := index\<rparr>)
                        (enumerate 0 (map the (filter (\<lambda>part. part \<noteq> None) xs)))"
  proof (cases "collect ms")
    case (Inl e)
    then show ?thesis using enc
      by (simp add: mapUIMessagePartsToDBParts_def ms_def f_def)
  next
    case (Inr xs)
    then show ?thesis using enc that
      by (simp add: mapUIMessagePartsToDBParts_def ms_def f_def)
  qed
  define ys where "ys = map the (filter (\<lambda>part. part \<noteq> None) xs)"
  have ms: "ms = map Inr xs" using xs by (rule collect_Inr_D)
  have "length ms = length parts" by (simp add: ms_def)
  then have len: "length xs = length parts" by (simp add: ms)
  have at: "mapPart (gen i) parts mid (parts ! i) i = Inr (xs ! i)" if "i < length parts" for i
  proof -
    have "ms ! i = f (i, parts ! i)" using that by (simp add: ms_def nth_enumerate_eq)
    moreover have "ms ! i = Inr (xs ! i)" using that len by (simp add: ms)
    ultimately show ?thesis by (simp add: f_def)
  qed
  have s_eq: "s = filter (\<lambda>i. xs ! i \<noteq> None) [0..<length xs]"
    unfolding s_def survivors_def len
  proof (rule filter_cong[OF refl])
    fix i assume "i \<in> set [0..<length parts]"
    then have "i < length parts" by simp
    from at[OF this] show "(mapPart (gen i) parts mid (parts ! i) i \<noteq> Inr None) = (xs ! i \<noteq> None)"
      by simp
  qed
  have "filter (\<lambda>part. part \<noteq> None) xs = map (\<lambda>i. xs ! i) s"
    unfolding s_eq by (rule filter_by_index)
  then have ys_eq: "ys = map (\<lambda>i. the (xs ! i)) s"
    by (simp only: ys_def map_map comp_def)
  have rows': "rows = map (\<lambda>(index, part). part\<lparr>order := index\<rparr>) (enumerate 0 ys)"
    using rows by (simp add: ys_def)
  show "map order rows = [0..<length rows]"
    unfolding rows' using order_reindex[of 0 ys] by simp
  show l: "length rows = length (survivors gen parts mid)"
    unfolding rows' by (simp add: ys_eq s_def)
  show "\<forall>k<length rows.
           mapPart (gen (survivors gen parts mid ! k)) parts mid
             (parts ! (survivors gen parts mid ! k)) (survivors gen parts mid ! k) =
           Inr (Some ((rows ! k)\<lparr>order := survivors gen parts mid ! k\<rparr>))"
  proof (intro allI impI)
    fix k assume k: "k < length rows"
    then have ks: "k < length s" using l by (simp add: s_def)
    then have mem: "s ! k \<in> set s" by simp
    then have lt: "s ! k < length parts" and some: "xs ! (s ! k) \<noteq> None"
      unfolding s_eq using len by auto
    have yk: "ys ! k = the (xs ! (s ! k))" using ks by (simp add: ys_eq)
    have mp: "mapPart (gen (s ! k)) parts mid (parts ! (s ! k)) (s ! k) = Inr (Some (ys ! k))"
      using at[OF lt] some yk by auto
    then have ord: "order (ys ! k) = s ! k" by (rule mapPart_order)
    have "k < length ys" using ks by (simp add: ys_eq)
    then have "rows ! k = (ys ! k)\<lparr>order := k\<rparr>"
      unfolding rows' by (rule nth_reindex)
    then have "(rows ! k)\<lparr>order := s ! k\<rparr> = (ys ! k)\<lparr>order := order (ys ! k)\<rparr>"
      by (simp only: ord db_part.update_convs db_part.simps) simp
    then have "(rows ! k)\<lparr>order := s ! k\<rparr> = ys ! k" by simp
    then show "mapPart (gen (survivors gen parts mid ! k)) parts mid
             (parts ! (survivors gen parts mid ! k)) (survivors gen parts mid ! k) =
           Inr (Some ((rows ! k)\<lparr>order := survivors gen parts mid ! k\<rparr>))"
      using mp by (simp add: s_def)
  qed
qed

lemma encode_total:
  assumes "toolNamesTyped parts"
  shows "\<exists>rows. mapUIMessagePartsToDBParts gen parts mid = Inr rows"
proof -
  define ms where "ms = map (\<lambda>(index, part). mapPart (gen index) parts mid part index)
                        (enumerate 0 parts)"
  have "\<exists>x. m = Inr x" if "m \<in> set ms" for m
  proof -
    from that obtain i p where ip: "(i, p) \<in> set (enumerate 0 parts)"
      and m: "m = mapPart (gen i) parts mid p i"
      unfolding ms_def by auto
    from ip have "p \<in> set parts" by (auto simp: in_set_enumerate_eq)
    from mapPart_total[OF assms this] show ?thesis unfolding m by blast
  qed
  then have "\<forall>m \<in> set ms. \<exists>x. m = Inr x" by blast
  then obtain xs where "collect ms = Inr xs"
    using collect_total by blast
  then show ?thesis by (simp add: mapUIMessagePartsToDBParts_def ms_def)
qed

lemma survivors_sorted: "sorted_wrt (<) (survivors gen parts mid)"
  unfolding survivors_def by (rule sorted_wrt_filter) simp

lemma survivors_length: "length (survivors gen parts mid) \<le> length parts"
  unfolding survivors_def using length_filter_le[of _ "[0..<length parts]"] by simp

text \<open>
  Order density of the rows that are returned. Whenever \<open>mapUIMessagePartsToDBParts\<close>
  returns rows for a sequence of \<open>N\<close> parts, the \<open>order\<close> values of the rows are exactly \<open>0, ..., M-1\<close> with
  \<open>M \<le> N\<close>, \<open>M\<close> is the number of parts that are not dropped, and row \<open>k\<close> is the row
  of the \<open>k\<close>-th surviving part (the surviving indices are ascending), its \<open>order\<close>
  re-assigned from the source index to \<open>k\<close>. The encoder returns rows for every
  batch whose tool names are typed; dropped parts (\<open>step-result\<close>, \<open>step-continue\<close>,
  \<open>step-finish\<close>, invalid \<open>tool-call\<close> parts that no \<open>tool-result\<close> part refers to) are
  allowed.
\<close>

theorem encode_order_dense:
  "(toolNamesTyped parts \<longrightarrow> (\<exists>rows. mapUIMessagePartsToDBParts gen parts mid = Inr rows)) \<and>
   (\<forall>rows. mapUIMessagePartsToDBParts gen parts mid = Inr rows \<longrightarrow>
      map order rows = [0..<length rows] \<and>
      length rows \<le> length parts \<and>
      length rows = length (survivors gen parts mid) \<and>
      sorted_wrt (<) (survivors gen parts mid) \<and>
      (\<forall>k<length rows.
         mapPart (gen (survivors gen parts mid ! k)) parts mid
           (parts ! (survivors gen parts mid ! k)) (survivors gen parts mid ! k) =
         Inr (Some ((rows ! k)\<lparr>order := survivors gen parts mid ! k\<rparr>))))"
proof (intro conjI impI allI)
  assume "toolNamesTyped parts"
  then show "\<exists>rows. mapUIMessagePartsToDBParts gen parts mid = Inr rows"
    by (rule encode_total)
next
  fix rows assume enc: "mapUIMessagePartsToDBParts gen parts mid = Inr rows"
  show "map order rows = [0..<length rows]" using enc by (rule encode_rows(1))
  show "length rows = length (survivors gen parts mid)" using enc by (rule encode_rows(2))
  then show "length rows \<le> length parts" using survivors_length[of gen parts mid] by simp
  show "sorted_wrt (<) (survivors gen parts mid)" by (rule survivors_sorted)
next
  fix rows k
  assume enc: "mapUIMessagePartsToDBParts gen parts mid = Inr rows" and k: "k < length rows"
  from encode_rows(3)[OF enc] k
  show "mapPart (gen (survivors gen parts mid ! k)) parts mid
           (parts ! (survivors gen parts mid ! k)) (survivors gen parts mid ! k) =
         Inr (Some ((rows ! k)\<lparr>order := survivors gen parts mid ! k\<rparr>))"
    by blast
qed

lemma dropping_batch_length: "length dropping_batch = 4"
  by (simp add: dropping_batch_def)

lemma dropping_batch_nth:
  "dropping_batch ! 0 = TextUIPart ''a'' None"
  "dropping_batch ! Suc 0 = \<lparr>ptype = ''step-finish'', props = []\<rparr>"
  "dropping_batch ! 2 = \<lparr>ptype = ''tool-call'', props = [(''toolCallId'', JStr ''c1'')]\<rparr>"
  "dropping_batch ! 3 = ExtendedToolPart ''tool-search'' (Some ''c2'') (Some ''input-available'') None None None"
  by (simp_all add: dropping_batch_def eval_nat_numeral)

lemma dropping_batch_map:
  "mapPart n ps m (TextUIPart ''a'' None) i \<noteq> Inr None"
  "mapPart n ps m \<lparr>ptype = ''step-finish'', props = []\<rparr> i = Inr None"
  "mapPart n ps m \<lparr>ptype = ''tool-call'', props = [(''toolCallId'', JStr ''c1'')]\<rparr> i = Inr None"
  "mapPart n ps m (ExtendedToolPart ''tool-search'' (Some ''c2'') (Some ''input-available'') None None None) i
     \<noteq> Inr None"
  by (simp_all add: mapPart_def Let_def TextUIPart_def ExtendedToolPart_def isToolCallPart_def
      get_def isExtendedToolPart_def startsWith_def)

lemma dropping_batch_survivors: "survivors (\<lambda>i. ''id'') dropping_batch ''m'' = [0, 3]"
proof -
  have "[0..<length dropping_batch] = [0, 1, 2, 3]"
    by (simp add: dropping_batch_length eval_nat_numeral)
  then show ?thesis
    by (simp add: survivors_def dropping_batch_nth dropping_batch_map)
qed


theorem encode_order_dense_witness:
  "toolNamesTyped dropping_batch \<and>
   (\<exists>rows. mapUIMessagePartsToDBParts (\<lambda>i. ''id'') dropping_batch ''m'' = Inr rows \<and>
      length dropping_batch = 4 \<and> length rows = 2 \<and> map order rows = [0, 1] \<and>
      survivors (\<lambda>i. ''id'') dropping_batch ''m'' = [0, 3])"
proof -
  have typed: "toolNamesTyped dropping_batch"
    by (simp add: toolNamesTyped_def dropping_batch_def TextUIPart_def ExtendedToolPart_def)
  note dense = encode_order_dense[of dropping_batch "\<lambda>i. ''id''" "''m''"]
  from dense typed
  obtain rows where enc: "mapUIMessagePartsToDBParts (\<lambda>i. ''id'') dropping_batch ''m'' = Inr rows"
    by blast
  with dense have ord: "map order rows = [0..<length rows]"
    and len: "length rows = length (survivors (\<lambda>i. ''id'') dropping_batch ''m'')"
    by blast+
  from len have len2: "length rows = 2" by (simp add: dropping_batch_survivors)
  have "[0..<length rows] = [0, 1]" unfolding len2 by (simp add: eval_nat_numeral)
  with ord have ord2: "map order rows = [0, 1]" by simp
  show ?thesis
    using typed enc dropping_batch_length len2 ord2 dropping_batch_survivors by (intro conjI exI[of _ rows])
qed

text \<open>
  C2 (order density), the input on which the encoder returns no rows. The batch
  \<open>nameless_call_batch\<close> has two parts: a \<open>tool-call\<close> part without a \<open>toolName\<close>, which
  is an invalid \<open>tool-call\<close> part (\<open>isToolCallPart\<close> is false) and is dropped by the
  encoder's callback, and a valid \<open>tool-result\<close> part with the same \<open>toolCallId\<close>. The
  lookup \<open>getToolNameFromCallId\<close> finds the dropped part by its type tag and call
  identifier and hands its missing name to \<open>getToolNameFromType\<close>, which throws a
  \<open>TypeError\<close>: the callback throws at part \<open>1\<close> and \<open>mapUIMessagePartsToDBParts\<close> returns
  no row list at all, so there are no dense \<open>order\<close> values for this sequence.
\<close>

theorem encode_nameless_call_throws:
  "length nameless_call_batch = 2 \<and>
   \<not> isToolCallPart (nameless_call_batch ! 0) \<and>
   mapPart ''id'' nameless_call_batch ''m'' (nameless_call_batch ! 0) 0 = Inr None \<and>
   isToolResultPart (nameless_call_batch ! 1) \<and>
   getToolNameFromCallId (get (nameless_call_batch ! 1) ''toolCallId'') nameless_call_batch
     = Inl TypeError \<and>
   mapPart ''id'' nameless_call_batch ''m'' (nameless_call_batch ! 1) 1 = Inl TypeError \<and>
   mapUIMessagePartsToDBParts (\<lambda>i. ''id'') nameless_call_batch ''m'' = Inl TypeError"
  by (simp add: nameless_call_batch_def mapUIMessagePartsToDBParts_def mapPart_def Let_def
      isToolCallPart_def isToolResultPart_def getToolNameFromCallId_def get_def
      enumerate_eq_zip eval_nat_numeral upt_conv_Cons)

section \<open>Encoding: the fallback for an unmatched tool result\<close>

lemma unmatched_tool_result_row:
  assumes t: "ptype p = ''tool-result''"
    and none: "\<not> (\<exists>q \<in> set parts. ptype q = ''tool-call'' \<and>
                  strict_eq (get q ''toolCallId'') (get p ''toolCallId''))"
  shows "\<exists>r. mapPart newId parts mid p i = Inr (Some r) \<and> type r = ''tool-unknown'' \<and>
             cols r ''tool_toolCallId'' = get p ''toolCallId''"
proof -
  have "find (\<lambda>part. ptype part = ''tool-call'' \<and>
                strict_eq (get part ''toolCallId'') (get p ''toolCallId'')) parts = None"
    using none by (simp add: find_None_iff)
  then have "getToolNameFromCallId (get p ''toolCallId'') parts = Inr ''unknown''"
    by (simp add: getToolNameFromCallId_def)
  then show ?thesis using t
    by (simp add: mapPart_def Let_def withCols_def setCol_def)
qed

lemma survivor_position:
  assumes i: "i < length parts" and row: "mapPart (gen i) parts mid (parts ! i) i = Inr (Some r)"
    and enc: "mapUIMessagePartsToDBParts gen parts mid = Inr rows"
  shows "\<exists>k<length rows. survivors gen parts mid ! k = i \<and> rows ! k = r\<lparr>order := k\<rparr>"
proof -
  have "i \<in> set (survivors gen parts mid)"
    using i row by (simp add: survivors_def)
  then obtain k where k: "k < length (survivors gen parts mid)"
    and ki: "survivors gen parts mid ! k = i"
    by (auto simp: in_set_conv_nth)
  have len: "length rows = length (survivors gen parts mid)" using enc by (rule encode_rows(2))
  with k have kr: "k < length rows" by simp
  with encode_rows(3)[OF enc] ki row have eq: "r = (rows ! k)\<lparr>order := i\<rparr>"
    by auto
  have "map order rows ! k = [0..<length rows] ! k" using encode_rows(1)[OF enc] by simp
  then have ok: "order (rows ! k) = k" using kr by simp
  have "r\<lparr>order := k\<rparr> = (rows ! k)\<lparr>order := order (rows ! k)\<rparr>"
    unfolding eq ok by simp
  then have "rows ! k = r\<lparr>order := k\<rparr>" by simp
  with kr ki show ?thesis by blast
qed

text \<open>
  The fallback for one part. The encoder's callback maps a \<open>tool-result\<close> part whose
  \<open>toolCallId\<close> matches no \<open>tool-call\<close> part of the batch, without an exception, to a
  row of type \<open>tool-unknown\<close> (the tool name falls back to \<open>unknown\<close>); and when the tool
  names of the batch are typed the encoder returns, with that row among its rows.
\<close>

theorem unknown_tool_result_fallback:
  assumes "i < length parts" and "ptype (parts ! i) = ''tool-result''"
    and "\<not> (\<exists>q \<in> set parts. ptype q = ''tool-call'' \<and>
              strict_eq (get q ''toolCallId'') (get (parts ! i) ''toolCallId''))"
  shows "\<exists>r. mapPart (gen i) parts mid (parts ! i) i = Inr (Some r) \<and>
             type r = ''tool-unknown'' \<and>
             (toolNamesTyped parts \<longrightarrow>
                (\<exists>rows. mapUIMessagePartsToDBParts gen parts mid = Inr rows \<and>
                   (\<exists>k<length rows. survivors gen parts mid ! k = i \<and>
                      rows ! k = r\<lparr>order := k\<rparr> \<and> type (rows ! k) = ''tool-unknown'')))"
proof -
  from unmatched_tool_result_row[OF assms(2,3)]
  obtain r where r: "mapPart (gen i) parts mid (parts ! i) i = Inr (Some r)"
    and t: "type r = ''tool-unknown''"
    by blast
  have "\<exists>rows. mapUIMessagePartsToDBParts gen parts mid = Inr rows \<and>
                   (\<exists>k<length rows. survivors gen parts mid ! k = i \<and>
                      rows ! k = r\<lparr>order := k\<rparr> \<and> type (rows ! k) = ''tool-unknown'')"
    if typed: "toolNamesTyped parts"
  proof -
    from encode_total[OF typed] obtain rows
      where enc: "mapUIMessagePartsToDBParts gen parts mid = Inr rows" by blast
    from survivor_position[OF assms(1) r enc] obtain k
      where "k < length rows" "survivors gen parts mid ! k = i" "rows ! k = r\<lparr>order := k\<rparr>"
      by blast
    moreover from this t have "type (rows ! k) = ''tool-unknown''" by simp
    ultimately show ?thesis using enc by blast
  qed
  with r t show ?thesis by blast
qed


theorem unknown_tool_result_fallback_witness:
  "Suc 0 < length unmatched_batch \<and> ptype (unmatched_batch ! Suc 0) = ''tool-result'' \<and>
   \<not> (\<exists>q \<in> set unmatched_batch. ptype q = ''tool-call'' \<and>
          strict_eq (get q ''toolCallId'') (get (unmatched_batch ! Suc 0) ''toolCallId'')) \<and>
   toolNamesTyped unmatched_batch \<and>
   (\<exists>rows k. mapUIMessagePartsToDBParts (\<lambda>i. ''id'') unmatched_batch ''m'' = Inr rows \<and>
       k < length rows \<and> survivors (\<lambda>i. ''id'') unmatched_batch ''m'' ! k = Suc 0 \<and>
       type (rows ! k) = ''tool-unknown'')"
proof -
  have h1: "Suc 0 < length unmatched_batch" by (simp add: unmatched_batch_def)
  have h2: "ptype (unmatched_batch ! Suc 0) = ''tool-result''" by (simp add: unmatched_batch_def)
  have h3: "\<not> (\<exists>q \<in> set unmatched_batch. ptype q = ''tool-call'' \<and>
          strict_eq (get q ''toolCallId'') (get (unmatched_batch ! Suc 0) ''toolCallId''))"
    by (simp add: unmatched_batch_def get_def)
  have h4: "toolNamesTyped unmatched_batch"
    by (simp add: toolNamesTyped_def unmatched_batch_def get_def)
  from unknown_tool_result_fallback[OF h1 h2 h3, of "\<lambda>i. ''id''" "''m''"] h4
  have "\<exists>rows k. mapUIMessagePartsToDBParts (\<lambda>i. ''id'') unmatched_batch ''m'' = Inr rows \<and>
       k < length rows \<and> survivors (\<lambda>i. ''id'') unmatched_batch ''m'' ! k = Suc 0 \<and>
       type (rows ! k) = ''tool-unknown''"
    by blast
  with h1 h2 h3 h4 show ?thesis by (intro conjI)
qed

text \<open>
  C8 (unknown tool-result fallback), the input on which the encoder throws. In the
  batch \<open>nameless_unmatched_batch\<close> part \<open>2\<close> is a \<open>tool-result\<close> part whose \<open>toolCallId\<close>
  matches no \<open>tool-call\<close> part of the batch, and the callback maps it to a row of type
  \<open>tool-unknown\<close>. But the batch also holds a \<open>tool-call\<close> part without a \<open>toolName\<close> and
  a \<open>tool-result\<close> part that refers to it: for that part \<open>getToolNameFromCallId\<close> hands
  the missing name to \<open>getToolNameFromType\<close>, the callback throws a \<open>TypeError\<close> at part
  \<open>1\<close>, and \<open>mapUIMessagePartsToDBParts\<close> throws instead of returning the
  \<open>tool-unknown\<close> row.
\<close>

theorem encode_unmatched_result_throws:
  "ptype (nameless_unmatched_batch ! 2) = ''tool-result'' \<and>
   \<not> (\<exists>q \<in> set nameless_unmatched_batch. ptype q = ''tool-call'' \<and>
          strict_eq (get q ''toolCallId'') (get (nameless_unmatched_batch ! 2) ''toolCallId'')) \<and>
   (\<exists>r. mapPart ''id'' nameless_unmatched_batch ''m'' (nameless_unmatched_batch ! 2) 2 = Inr (Some r) \<and>
        type r = ''tool-unknown'') \<and>
   mapPart ''id'' nameless_unmatched_batch ''m'' (nameless_unmatched_batch ! 1) 1 = Inl TypeError \<and>
   mapUIMessagePartsToDBParts (\<lambda>i. ''id'') nameless_unmatched_batch ''m'' = Inl TypeError"
  by (simp add: nameless_unmatched_batch_def mapUIMessagePartsToDBParts_def mapPart_def Let_def
      isToolCallPart_def isToolResultPart_def getToolNameFromCallId_def get_def
      enumerate_eq_zip eval_nat_numeral upt_conv_Cons)

section \<open>Encoding: rows of extended tool parts\<close>

lemma extended_tool_row:
  assumes "ptype p \<in> set extendedToolTypes"
  shows "\<exists>r. mapPart newId parts mid p i = Inr (Some r) \<and> type r = ptype p \<and>
           cols r ''tool_toolCallId'' = js_or (get p ''toolCallId'') (JStr newId) \<and>
           cols r ''tool_state'' = js_or (get p ''state'') (JStr ''input-available'')"
proof -
  from assms consider "ptype p = ''tool-search''" | "ptype p = ''tool-fetch''"
    | "ptype p = ''tool-question''" | "ptype p = ''tool-todoWrite''" | "ptype p = ''tool-todoRead''"
    unfolding extendedToolTypes_def by fastforce
  then show ?thesis
    by cases (simp_all add: mapPart_def Let_def isExtendedToolPart_def startsWith_def
        createToolPartMapping_def withCols_def setCol_def)
qed

lemma js_or_notNull: "notNull b \<Longrightarrow> notNull (js_or a b)"
  by (cases a) (auto simp: js_or_def notNull_def)

text \<open>
  C10 (tool-row completeness). The row of an extended tool part (\<open>tool-search\<close>,
  \<open>tool-fetch\<close>, \<open>tool-question\<close>, \<open>tool-todoWrite\<close>, \<open>tool-todoRead\<close>) always exists and
  has a non-null tool call identifier and a non-null state: a part without a
  \<open>toolCallId\<close> gets the freshly generated identifier, a part without a \<open>state\<close> gets
  \<open>input-available\<close>. So the row, also as re-indexed in the encoder's output,
  satisfies the constraint \<open>tool_fields_required\<close>.
\<close>

theorem extended_tool_rows_complete:
  assumes "i < length parts" and "ptype (parts ! i) \<in> set extendedToolTypes"
  shows "\<exists>r. mapPart (gen i) parts mid (parts ! i) i = Inr (Some r) \<and>
           notNull (cols r ''tool_toolCallId'') \<and> notNull (cols r ''tool_state'') \<and>
           tool_fields_required r \<and>
           (if truthy (get (parts ! i) ''toolCallId'')
            then cols r ''tool_toolCallId'' = get (parts ! i) ''toolCallId''
            else cols r ''tool_toolCallId'' = JStr (gen i)) \<and>
           (if truthy (get (parts ! i) ''state'')
            then cols r ''tool_state'' = get (parts ! i) ''state''
            else cols r ''tool_state'' = JStr ''input-available'') \<and>
           (\<forall>rows. mapUIMessagePartsToDBParts gen parts mid = Inr rows \<longrightarrow>
              (\<exists>k<length rows. survivors gen parts mid ! k = i \<and> rows ! k = r\<lparr>order := k\<rparr> \<and>
                 tool_fields_required (rows ! k)))"
proof -
  let ?p = "parts ! i"
  from extended_tool_row[OF assms(2)] obtain r
    where r: "mapPart (gen i) parts mid ?p i = Inr (Some r)"
      and c: "cols r ''tool_toolCallId'' = js_or (get ?p ''toolCallId'') (JStr (gen i))"
      and s: "cols r ''tool_state'' = js_or (get ?p ''state'') (JStr ''input-available'')"
    by blast
  have n1: "notNull (cols r ''tool_toolCallId'')"
    unfolding c by (rule js_or_notNull) (simp add: notNull_def)
  have n2: "notNull (cols r ''tool_state'')"
    unfolding s by (rule js_or_notNull) (simp add: notNull_def)
  have req: "tool_fields_required r" using n1 n2 by (simp add: tool_fields_required_def)
  have id: "if truthy (get ?p ''toolCallId'') then cols r ''tool_toolCallId'' = get ?p ''toolCallId''
            else cols r ''tool_toolCallId'' = JStr (gen i)"
    unfolding c by (simp add: js_or_def)
  have st: "if truthy (get ?p ''state'') then cols r ''tool_state'' = get ?p ''state''
            else cols r ''tool_state'' = JStr ''input-available''"
    unfolding s by (simp add: js_or_def)
  have out: "\<exists>k<length rows. survivors gen parts mid ! k = i \<and> rows ! k = r\<lparr>order := k\<rparr> \<and>
                 tool_fields_required (rows ! k)"
    if enc: "mapUIMessagePartsToDBParts gen parts mid = Inr rows" for rows
  proof -
    from survivor_position[OF assms(1) r enc] obtain k
      where k: "k < length rows" "survivors gen parts mid ! k = i" "rows ! k = r\<lparr>order := k\<rparr>"
      by blast
    from k(3) req have "tool_fields_required (rows ! k)"
      by (simp add: tool_fields_required_def)
    with k show ?thesis by blast
  qed
  show ?thesis
    using r n1 n2 req id st out by (intro exI[of _ r] conjI allI impI)
qed

theorem extended_tool_rows_complete_witness:
  "0 < length bare_tool_batch \<and> ptype (bare_tool_batch ! 0) \<in> set extendedToolTypes \<and>
   (\<exists>r. mapPart ''new-id'' bare_tool_batch ''m'' (bare_tool_batch ! 0) 0 = Inr (Some r) \<and>
        cols r ''tool_toolCallId'' = JStr ''new-id'' \<and>
        cols r ''tool_state'' = JStr ''input-available'' \<and> tool_fields_required r)"
proof -
  have h1: "0 < length bare_tool_batch" by (simp add: bare_tool_batch_def)
  have h2: "ptype (bare_tool_batch ! 0) \<in> set extendedToolTypes"
    by (simp add: bare_tool_batch_def ExtendedToolPart_def extendedToolTypes_def)
  have g: "\<not> truthy (get (bare_tool_batch ! 0) ''toolCallId'')" "\<not> truthy (get (bare_tool_batch ! 0) ''state'')"
    by (simp_all add: bare_tool_batch_def ExtendedToolPart_def optional_def get_def)
  from extended_tool_rows_complete[OF h1 h2, of "\<lambda>i. ''new-id''" "''m''"] g
  have "\<exists>r. mapPart ''new-id'' bare_tool_batch ''m'' (bare_tool_batch ! 0) 0 = Inr (Some r) \<and>
        cols r ''tool_toolCallId'' = JStr ''new-id'' \<and>
        cols r ''tool_state'' = JStr ''input-available'' \<and> tool_fields_required r"
    by auto
  with h1 h2 show ?thesis by (intro conjI)
qed

section \<open>Decoding: corrupt tool states\<close>









section \<open>The round trip of the part codec\<close>













lemma ptype_ExtendedToolPart [simp]: "ptype (ExtendedToolPart t cid st err inp out) = t"
  by (simp add: ExtendedToolPart_def)

















section \<open>Merging result sets\<close>




lemma imgUrl_imageObject [simp]: "imgUrl (imageObject i) = imgUrl i"
  by (cases i) auto











section \<open>The result cache: eviction\<close>

lemma getCacheKey_nonempty: "getCacheKey js q n depth inc exc \<noteq> []"
  by (simp add: getCacheKey_def)

lemma keys_mapSet:
  "map fst (mapSet k v m) = (if k \<in> set (map fst m) then map fst m else map fst m @ [k])"
  by (auto simp: mapSet_def split_def)

lemma mapSet_new: "k \<notin> set (map fst m) \<Longrightarrow> mapSet k v m = m @ [(k, v)]"
  by (simp add: mapSet_def)

lemma keys_mapDelete: "map fst (mapDelete k m) = filter (\<lambda>k'. k' \<noteq> k) (map fst m)"
  by (induction m) (auto simp: mapDelete_def)

lemma mapDelete_first:
  assumes "distinct (map fst m)" and "m \<noteq> []"
  shows "mapDelete (fst (hd m)) m = tl m"
proof -
  from assms(2) obtain k v rest where m: "m = (k, v) # rest" by (cases m) auto
  with assms(1) have "k \<notin> fst ` set rest" by simp
  then have "filter (\<lambda>(k', v'). k' \<noteq> k) rest = rest"
    by (auto simp: filter_id_conv image_iff)
  then show ?thesis by (simp add: m mapDelete_def)
qed

lemma firstKey_hd: "m \<noteq> [] \<Longrightarrow> firstKey m = Some (fst (hd m))"
  by (cases m) (auto simp: firstKey_def)

lemma setCache_full:
  assumes d: "distinct (map fst c)" and ne: "\<forall>k \<in> set (map fst c). k \<noteq> []"
    and full: "length c \<ge> MAX_CACHE_SIZE"
  shows "setCache key v now c = mapSet key \<lparr>data = v, timestamp = now\<rparr> (tl c)"
proof -
  from full have c: "c \<noteq> []" by (auto simp: MAX_CACHE_SIZE_def)
  then have "fst (hd c) \<in> set (map fst c)" by (cases c) auto
  with ne have "fst (hd c) \<noteq> []" by blast
  then show ?thesis
    using full by (simp add: setCache_def firstKey_hd[OF c] mapDelete_first[OF d c])
qed

lemma setCache_not_full:
  "length c < MAX_CACHE_SIZE \<Longrightarrow> setCache key v now c = mapSet key \<lparr>data = v, timestamp = now\<rparr> c"
  by (simp add: setCache_def)

lemma reachable_inv:
  "reachable js c \<Longrightarrow>
     distinct (map fst c) \<and> (\<forall>k \<in> set (map fst c). k \<noteq> []) \<and> length c \<le> MAX_CACHE_SIZE"
proof (induction rule: reachable.induct)
  case empty
  then show ?case by simp
next
  case (set c q n depth inc exc d now)
  let ?k = "getCacheKey js q n depth inc exc"
  from set.IH have dist: "distinct (map fst c)" and ne: "\<forall>k \<in> set (map fst c). k \<noteq> []"
    and len: "length c \<le> MAX_CACHE_SIZE" by blast+
  show ?case
  proof (cases "length c < MAX_CACHE_SIZE")
    case True
    then have eq: "setCache ?k d now c = mapSet ?k \<lparr>data = d, timestamp = now\<rparr> c"
      by (rule setCache_not_full)
    have "length (mapSet ?k \<lparr>data = d, timestamp = now\<rparr> c) \<le> Suc (length c)"
      using length_map[of fst "mapSet ?k \<lparr>data = d, timestamp = now\<rparr> c"]
      by (simp add: keys_mapSet split: if_splits)
    with True have "length (setCache ?k d now c) \<le> MAX_CACHE_SIZE" unfolding eq by simp
    moreover have "distinct (map fst (setCache ?k d now c))"
      unfolding eq using dist by (simp add: keys_mapSet)
    moreover have "\<forall>k \<in> set (map fst (setCache ?k d now c)). k \<noteq> []"
      unfolding eq using ne getCacheKey_nonempty[of js q n depth inc exc]
      by (auto simp: keys_mapSet simp del: set_map split: if_splits)
    ultimately show ?thesis by blast
  next
    case False
    with len have full: "length c \<ge> MAX_CACHE_SIZE" by simp
    then have c: "c \<noteq> []" by (auto simp: MAX_CACHE_SIZE_def)
    have eq: "setCache ?k d now c = mapSet ?k \<lparr>data = d, timestamp = now\<rparr> (tl c)"
      using dist ne full by (rule setCache_full)
    have dt: "distinct (map fst (tl c))" using dist by (simp add: map_tl distinct_tl)
    have st: "set (map fst (tl c)) \<subseteq> set (map fst c)"
      using c by (cases c) auto
    have "length (mapSet ?k \<lparr>data = d, timestamp = now\<rparr> (tl c)) \<le> Suc (length (tl c))"
      using length_map[of fst "mapSet ?k \<lparr>data = d, timestamp = now\<rparr> (tl c)"]
      by (simp add: keys_mapSet split: if_splits)
    with len c have "length (setCache ?k d now c) \<le> MAX_CACHE_SIZE" unfolding eq by simp
    moreover have "distinct (map fst (setCache ?k d now c))"
      unfolding eq using dt by (simp add: keys_mapSet)
    moreover have "\<forall>k \<in> set (map fst (setCache ?k d now c)). k \<noteq> []"
      unfolding eq using ne st getCacheKey_nonempty[of js q n depth inc exc]
      by (auto simp: keys_mapSet simp del: set_map split: if_splits)
    ultimately show ?thesis by blast
  qed
next
  case (get c q n depth inc exc now)
  let ?k = "getCacheKey js q n depth inc exc"
  from get.IH have dist: "distinct (map fst c)" and ne: "\<forall>k \<in> set (map fst c). k \<noteq> []"
    and len: "length c \<le> MAX_CACHE_SIZE" by blast+
  have "snd (getFromCache ?k now c) = c \<or> snd (getFromCache ?k now c) = mapDelete ?k c"
    by (simp add: getFromCache_def Let_def split: option.splits)
  moreover have "distinct (map fst (mapDelete ?k c))" using dist by (simp add: keys_mapDelete)
  moreover have "\<forall>k \<in> set (map fst (mapDelete ?k c)). k \<noteq> []"
    using ne by (auto simp: keys_mapDelete)
  moreover have "length (mapDelete ?k c) \<le> MAX_CACHE_SIZE"
    unfolding mapDelete_def
    by (rule order_trans[OF length_filter_le len])
  ultimately show ?case using dist ne len by metis
next
  case (clear c)
  then show ?case by (simp add: clearCache_def)
qed


text \<open>
  C7 (cache eviction). When the cache holds \<open>100\<close> entries, setting a key that is not
  in it removes exactly the first entry, which is that of the earliest-inserted key
  still present, keeps every other entry in its place and appends the new one.
\<close>

theorem cache_eviction:
  assumes "reachable js c" and "length c = MAX_CACHE_SIZE" and "key \<notin> set (map fst c)"
  shows "setCache key d now c = tl c @ [(key, \<lparr>data = d, timestamp = now\<rparr>)] \<and>
         firstKey c = Some (fst (hd c)) \<and>
         fst (hd c) \<notin> set (map fst (setCache key d now c)) \<and>
         (\<forall>e \<in> set (tl c). e \<in> set (setCache key d now c)) \<and>
         map fst (setCache key d now c) = tl (map fst c) @ [key] \<and>
         length (setCache key d now c) = MAX_CACHE_SIZE"
proof -
  from reachable_inv[OF assms(1)]
  have dist: "distinct (map fst c)" and ne: "\<forall>k \<in> set (map fst c). k \<noteq> []" by blast+
  from assms(2) have c: "c \<noteq> []" by (auto simp: MAX_CACHE_SIZE_def)
  have sub: "set (map fst (tl c)) \<subseteq> set (map fst c)" using c by (cases c) auto
  with assms(3) have new: "key \<notin> set (map fst (tl c))" by blast
  have "setCache key d now c = mapSet key \<lparr>data = d, timestamp = now\<rparr> (tl c)"
    using dist ne assms(2) by (simp add: setCache_full)
  then have eq: "setCache key d now c = tl c @ [(key, \<lparr>data = d, timestamp = now\<rparr>)]"
    using new by (simp add: mapSet_new)
  have hd_tl: "fst (hd c) \<notin> set (map fst (tl c))"
    using dist c by (cases c) auto
  have hd_key: "fst (hd c) \<noteq> key" using assms(3) c by (cases c) auto
  have gone: "fst (hd c) \<notin> set (map fst (setCache key d now c))"
    unfolding eq using hd_tl hd_key by simp
  have kept: "\<forall>e \<in> set (tl c). e \<in> set (setCache key d now c)" unfolding eq by simp
  have keys: "map fst (setCache key d now c) = tl (map fst c) @ [key]"
    unfolding eq by (simp add: map_tl)
  have len: "length (setCache key d now c) = MAX_CACHE_SIZE"
    unfolding eq using assms(2) c by (simp add: MAX_CACHE_SIZE_def)
  from eq firstKey_hd[OF c] gone kept keys len show ?thesis by (intro conjI)
qed

lemma nthKey_length: "length (nthKey i) = length (nthKey 0) + i"
  by (simp add: nthKey_def getCacheKey_def plain_builtins_def)

lemma nthKey_inj: "nthKey i = nthKey j \<longleftrightarrow> i = j"
proof
  assume "nthKey i = nthKey j"
  then have "length (nthKey i) = length (nthKey j)" by simp
  then show "i = j" by (simp add: nthKey_length[of i] nthKey_length[of j])
next
  assume "i = j"
  then show "nthKey i = nthKey j" by simp
qed

lemma filledCache_keys:
  "n \<le> MAX_CACHE_SIZE \<Longrightarrow> map fst (filledCache n) = map nthKey [0..<n]"
proof (induction n)
  case 0
  then show ?case by simp
next
  case (Suc n)
  then have ih: "map fst (filledCache n) = map nthKey [0..<n]" by simp
  then have "length (map fst (filledCache n)) = n" by simp
  then have len: "length (filledCache n) < MAX_CACHE_SIZE" using Suc.prems by simp
  have new: "nthKey n \<notin> set (map fst (filledCache n))"
    unfolding ih by (auto simp: nthKey_inj)
  show ?case
    using ih by (simp add: setCache_not_full[OF len] mapSet_new[OF new])
qed

lemma filledCache_reachable: "reachable plain_builtins (filledCache n)"
  by (induction n) (auto simp: nthKey_def intro: reachable.intros)

theorem cache_eviction_witness:
  "reachable plain_builtins (filledCache 100) \<and>
   length (filledCache 100) = MAX_CACHE_SIZE \<and>
   nthKey 100 \<notin> set (map fst (filledCache 100)) \<and>
   firstKey (filledCache 100) = Some (nthKey 0) \<and>
   map fst (setCache (nthKey 100) empty_results 1 (filledCache 100)) = map nthKey [1..<101]"
proof -
  have le: "100 \<le> MAX_CACHE_SIZE" by (simp add: MAX_CACHE_SIZE_def)
  have keys: "map fst (filledCache 100) = map nthKey [0..<100]"
    using le by (rule filledCache_keys)
  have h1: "reachable plain_builtins (filledCache 100)" by (rule filledCache_reachable)
  have "length (map fst (filledCache 100)) = 100" unfolding keys by simp
  then have h2: "length (filledCache 100) = MAX_CACHE_SIZE" by (simp add: MAX_CACHE_SIZE_def)
  have h3: "nthKey 100 \<notin> set (map fst (filledCache 100))"
    unfolding keys by (auto simp: nthKey_inj)
  note ev = cache_eviction[OF h1 h2 h3, of empty_results 1]
  have "hd (map fst (filledCache 100)) = nthKey 0"
    unfolding keys by (simp add: upt_conv_Cons)
  moreover have "filledCache 100 \<noteq> []" using h2 by (auto simp: MAX_CACHE_SIZE_def)
  ultimately have hd: "fst (hd (filledCache 100)) = nthKey 0" by (simp add: hd_map)
  from ev hd have a: "firstKey (filledCache 100) = Some (nthKey 0)" by simp
  from ev have "map fst (setCache (nthKey 100) empty_results 1 (filledCache 100)) =
      tl (map fst (filledCache 100)) @ [nthKey 100]" by blast
  also have "\<dots> = map nthKey ([1..<100] @ [100])"
    unfolding keys by (simp add: upt_conv_Cons map_tl[symmetric] del: upt_Suc)
  also have "[1..<100] @ [100] = [1..<Suc 100]" by (rule upt_Suc_append[symmetric]) simp
  also have "Suc 100 = 101" by simp
  finally have b: "map fst (setCache (nthKey 100) empty_results 1 (filledCache 100)) =
      map nthKey [1..<101]" .
  from h1 h2 h3 a b show ?thesis by (intro conjI)
qed

section \<open>The search tool: the minimum result count\<close>

lemma callMaxResults_call:
  "callMaxResults (searchProviderCall env q t ct m depth inc exc) = effectiveMaxResults m"
  by (simp add: searchProviderCall_def Let_def)

text \<open>
  C9 (minimum result count), as the claim states it, fails for an absent
  \<open>max_results\<close>: the parameter's default makes it \<open>20\<close>, not \<open>10\<close>.
\<close>

theorem min_results_counterexample:
  "effectiveMaxResults None = 20 \<and>
   callMaxResults (searchProviderCall
      \<lparr>SEARCH_API = None, SEARXNG_DEFAULT_DEPTH = None, DEFAULT_PROVIDER = ''tavily''\<rparr>
      ''q'' None None None None None None) = 20 \<and>
   callMaxResults (searchProviderCall
      \<lparr>SEARCH_API = None, SEARXNG_DEFAULT_DEPTH = None, DEFAULT_PROVIDER = ''tavily''\<rparr>
      ''q'' None None None None None None) \<noteq> 10"
  by (simp add: callMaxResults_call effectiveMaxResults_def)

text \<open>
  C9, amended. The maximum-results value of every request of the search tool is at
  least \<open>10\<close>: a \<open>max_results\<close> below \<open>10\<close> (also \<open>0\<close> or a negative one) is raised to
  \<open>10\<close>, one of at least \<open>10\<close> is passed on, and an absent one is taken as \<open>20\<close>.
\<close>

theorem min_results:
  "callMaxResults (searchProviderCall env q t ct m depth inc exc) = effectiveMaxResults m \<and>
   10 \<le> effectiveMaxResults m \<and>
   (\<forall>n. n < 10 \<longrightarrow> effectiveMaxResults (Some n) = 10) \<and>
   (\<forall>n. 10 \<le> n \<longrightarrow> effectiveMaxResults (Some n) = n) \<and>
   effectiveMaxResults None = 20"
  by (auto simp: callMaxResults_call effectiveMaxResults_def Let_def split: option.splits)

theorem min_results_witness:
  "(3::int) < 10 \<and> effectiveMaxResults (Some 3) = 10 \<and>
   (10::int) \<le> 25 \<and> effectiveMaxResults (Some 25) = 25 \<and>
   callMaxResults (searchProviderCall
      \<lparr>SEARCH_API = Some ''searxng'', SEARXNG_DEFAULT_DEPTH = Some ''advanced'',
       DEFAULT_PROVIDER = ''tavily''\<rparr>
      ''q'' None None (Some 3) None None None) = 10"
proof -
  note m = min_results[of "\<lparr>SEARCH_API = Some ''searxng'', SEARXNG_DEFAULT_DEPTH = Some ''advanced'',
       DEFAULT_PROVIDER = ''tavily''\<rparr>" "''q''" None None "Some 3" None None None]
  have h1: "(3::int) < 10" and h2: "(10::int) \<le> 25" by simp_all
  from m h1 have a: "effectiveMaxResults (Some 3) = 10" by blast
  from m h2 have b: "effectiveMaxResults (Some 25) = 25" by blast
  from m a have c: "callMaxResults (searchProviderCall
      \<lparr>SEARCH_API = Some ''searxng'', SEARXNG_DEFAULT_DEPTH = Some ''advanced'',
       DEFAULT_PROVIDER = ''tavily''\<rparr>
      ''q'' None None (Some 3) None None None) = 10" by simp
  from h1 a h2 b c show ?thesis by (intro conjI)
qed

section \<open>The researcher agent: the mode policy\<close>

lemma wrap_passes_through:
  assumes "execute originalTool = Some executeFunc"
    and "executeFunc (params\<lparr>in_type := Some ''optimized''\<rparr>) context = AsyncIterable chunks err"
  shows "\<exists>f. execute (wrapSearchToolForQuickMode originalTool) = Some f \<and>
             f params context = AsyncIterable chunks err"
  using assms by (simp add: wrapSearchToolForQuickMode_def)

lemma searchExecute_stream:
  "\<exists>chunks err. searchExecute env backend params context = AsyncIterable chunks err"
  by (simp add: searchExecute_def Let_def split: sum.splits)

lemma wrap_createSearchTool:
  "\<exists>f. execute (wrapSearchToolForQuickMode (createSearchTool sch env backend m)) = Some f \<and>
       (\<forall>params context.
          f params context = searchExecute env backend (params\<lparr>in_type := Some ''optimized''\<rparr>) context)"
proof -
  have "(case searchExecute env backend p c of
           AsyncIterable chunks err \<Rightarrow> AsyncIterable chunks err
         | Awaited finalResult \<Rightarrow> AsyncIterable [js_or finalResult (emptyComplete q)] None
         | Rejected e \<Rightarrow> AsyncIterable [] (Some e)) = searchExecute env backend p c" for p c q
    using searchExecute_stream[of env backend p c] by auto
  then show ?thesis
    by (simp add: wrapSearchToolForQuickMode_def createSearchTool_def)
qed

lemma createResearcher_quick:
  assumes "getModel deps m = Inr h"
  shows "\<exists>cfg. createResearcher deps m writer (Some ''quick'') = Inr cfg \<and>
           maxSteps cfg = 20 \<and> activeTools cfg = [''search'', ''fetch''] \<and>
           set (activeTools cfg) = {''search'', ''fetch''} \<and>
           map_of (tools cfg) ''search'' =
             Some (SearchTool (wrapSearchToolForQuickMode
               (createSearchTool (schemaForModel deps) (searchEnv deps) (searchBackend deps) m))) \<and>
           prepareStep cfg = None"
  using assms by (simp add: createResearcher_def Let_def)

lemma createResearcher_planning:
  assumes "getModel deps m = Inr h"
  shows "\<exists>cfg. createResearcher deps m writer (Some ''planning'') = Inr cfg \<and>
           maxSteps cfg = 50 \<and>
           map_of (tools cfg) ''search'' =
             Some (SearchTool
               (createSearchTool (schemaForModel deps) (searchEnv deps) (searchBackend deps) m)) \<and>
           (if writer
            then activeTools cfg = [''search'', ''fetch'', ''todoWrite'', ''todoRead''] \<and>
                 (\<exists>f. prepareStep cfg = Some f \<and> f 0 = Some ''todoWrite'' \<and>
                      (\<forall>n. f (Suc n) = None))
            else activeTools cfg = [''search'', ''fetch''] \<and> prepareStep cfg = None)"
proof -
  have tw: "''todoWrite'' \<in> set (map fst createTodoTools)"
    by (simp add: createTodoTools_def)
  show ?thesis
    using assms tw by (cases writer) (simp_all add: createResearcher_def Let_def)
qed

text \<open>
  C5 (mode policy). When the model factory returns a model, the researcher built in
  \<open>quick\<close> mode has a step budget of \<open>20\<close>, the active tools \<open>search\<close> and \<open>fetch\<close>, and as
  its search tool the wrapped search tool; the wrapped tool's \<open>execute\<close> runs the
  original \<open>execute\<close> with \<open>type\<close> set to \<open>optimized\<close> and yields the same events, ended
  by the same exception if one ends them (for the search tool of \<open>createSearchTool\<close>,
  and for any original tool whose \<open>execute\<close> returns an async iterable). Built in
  \<open>planning\<close> mode it has a step budget of \<open>50\<close>, and with a result-streaming sink
  present its \<open>prepareStep\<close> forces the tool \<open>todoWrite\<close> at step \<open>0\<close> and nothing after.
\<close>

theorem mode_policy:
  assumes "getModel deps m = Inr h"
  shows
    "(\<exists>cfg. createResearcher deps m writer (Some ''quick'') = Inr cfg \<and>
        maxSteps cfg = 20 \<and> set (activeTools cfg) = {''search'', ''fetch''} \<and>
        map_of (tools cfg) ''search'' =
          Some (SearchTool (wrapSearchToolForQuickMode
            (createSearchTool (schemaForModel deps) (searchEnv deps) (searchBackend deps) m)))) \<and>
     (\<exists>f. execute (wrapSearchToolForQuickMode
              (createSearchTool (schemaForModel deps) (searchEnv deps) (searchBackend deps) m)) = Some f \<and>
        (\<forall>params context.
           f params context =
             searchExecute (searchEnv deps) (searchBackend deps)
               (params\<lparr>in_type := Some ''optimized''\<rparr>) context)) \<and>
     (\<forall>originalTool executeFunc params context chunks err.
        execute originalTool = Some executeFunc \<longrightarrow>
        executeFunc (params\<lparr>in_type := Some ''optimized''\<rparr>) context = AsyncIterable chunks err \<longrightarrow>
        (\<exists>f. execute (wrapSearchToolForQuickMode originalTool) = Some f \<and>
             f params context = AsyncIterable chunks err)) \<and>
     (\<exists>cfg. createResearcher deps m writer (Some ''planning'') = Inr cfg \<and>
        maxSteps cfg = 50 \<and>
        (writer \<longrightarrow> (\<exists>f. prepareStep cfg = Some f \<and> f 0 = Some ''todoWrite'' \<and>
                          (\<forall>n. f (Suc n) = None))))"
proof (intro conjI)
  from createResearcher_quick[OF assms, of writer]
  show "\<exists>cfg. createResearcher deps m writer (Some ''quick'') = Inr cfg \<and>
        maxSteps cfg = 20 \<and> set (activeTools cfg) = {''search'', ''fetch''} \<and>
        map_of (tools cfg) ''search'' =
          Some (SearchTool (wrapSearchToolForQuickMode
            (createSearchTool (schemaForModel deps) (searchEnv deps) (searchBackend deps) m)))"
    by blast
  show "\<exists>f. execute (wrapSearchToolForQuickMode
              (createSearchTool (schemaForModel deps) (searchEnv deps) (searchBackend deps) m)) = Some f \<and>
        (\<forall>params context.
           f params context =
             searchExecute (searchEnv deps) (searchBackend deps)
               (params\<lparr>in_type := Some ''optimized''\<rparr>) context)"
    by (rule wrap_createSearchTool)
  show "\<forall>originalTool executeFunc params context chunks err.
        execute originalTool = Some executeFunc \<longrightarrow>
        executeFunc (params\<lparr>in_type := Some ''optimized''\<rparr>) context = AsyncIterable chunks err \<longrightarrow>
        (\<exists>f. execute (wrapSearchToolForQuickMode originalTool) = Some f \<and>
             f params context = AsyncIterable chunks err)"
    using wrap_passes_through by blast
  from createResearcher_planning[OF assms, of writer]
  obtain cfg where c: "createResearcher deps m writer (Some ''planning'') = Inr cfg"
    "maxSteps cfg = 50"
    "if writer
     then activeTools cfg = [''search'', ''fetch'', ''todoWrite'', ''todoRead''] \<and>
          (\<exists>f. prepareStep cfg = Some f \<and> f 0 = Some ''todoWrite'' \<and> (\<forall>n. f (Suc n) = None))
     else activeTools cfg = [''search'', ''fetch''] \<and> prepareStep cfg = None"
    by blast
  from c(3) have "writer \<longrightarrow> (\<exists>f. prepareStep cfg = Some f \<and> f 0 = Some ''todoWrite'' \<and>
                          (\<forall>n. f (Suc n) = None))"
    by (cases writer) simp_all
  with c(1,2)
  show "\<exists>cfg. createResearcher deps m writer (Some ''planning'') = Inr cfg \<and>
        maxSteps cfg = 50 \<and>
        (writer \<longrightarrow> (\<exists>f. prepareStep cfg = Some f \<and> f 0 = Some ''todoWrite'' \<and>
                          (\<forall>n. f (Suc n) = None)))"
    by blast
qed

theorem mode_policy_witness:
  "getModel example_deps ''gpt'' = Inr ''gpt'' \<and>
   (\<exists>cfg. createResearcher example_deps ''gpt'' True (Some ''quick'') = Inr cfg \<and>
      maxSteps cfg = 20 \<and> set (activeTools cfg) = {''search'', ''fetch''}) \<and>
   (\<exists>cfg f. createResearcher example_deps ''gpt'' True (Some ''planning'') = Inr cfg \<and>
      maxSteps cfg = 50 \<and> prepareStep cfg = Some f \<and> f 0 = Some ''todoWrite'')"
proof -
  have h: "getModel example_deps ''gpt'' = Inr ''gpt''" by (simp add: example_deps_def)
  note mp = mode_policy[OF h, of True]
  from mp have a: "\<exists>cfg. createResearcher example_deps ''gpt'' True (Some ''quick'') = Inr cfg \<and>
      maxSteps cfg = 20 \<and> set (activeTools cfg) = {''search'', ''fetch''}"
    by blast
  from mp have b: "\<exists>cfg f. createResearcher example_deps ''gpt'' True (Some ''planning'') = Inr cfg \<and>
      maxSteps cfg = 50 \<and> prepareStep cfg = Some f \<and> f 0 = Some ''todoWrite''"
    by blast
  from h a b show ?thesis by (intro conjI)
qed

section \<open>The conversation orchestrator: regeneration\<close>

lemma findIndex_first:
  assumes "i < length xs" and "P (xs ! i)" and "\<forall>j<i. \<not> P (xs ! j)"
  shows "findIndex P xs = int i"
  using assms
proof (induction xs arbitrary: i)
  case Nil
  then show ?case by simp
next
  case (Cons x xs)
  show ?case
  proof (cases i)
    case 0
    with Cons.prems show ?thesis by simp
  next
    case (Suc k)
    with Cons.prems have k: "k < length xs" "P (xs ! k)" by simp_all
    have nk: "\<forall>j<k. \<not> P (xs ! j)"
    proof (intro allI impI)
      fix j assume "j < k"
      then have "Suc j < i" using Suc by simp
      with Cons.prems(3) have "\<not> P ((x # xs) ! Suc j)" by blast
      then show "\<not> P (xs ! j)" by simp
    qed
    have "0 < i" using Suc by simp
    with Cons.prems(3) have "\<not> P ((x # xs) ! 0)" by blast
    then have nx: "\<not> P x" by simp
    from Cons.IH[OF k nk] have "findIndex P xs = int k" .
    with nx Suc show ?thesis by (simp add: Let_def)
  qed
qed

lemma takeWhile_first:
  assumes "i < length xs" and "P (xs ! i)" and "\<forall>j<i. \<not> P (xs ! j)"
  shows "takeWhile (\<lambda>x. \<not> P x) xs = take i xs"
proof (rule takeWhile_eq_take_P_nth)
  show "\<And>j. j < i \<Longrightarrow> j < length xs \<Longrightarrow> \<not> P (xs ! j)" using assms(3) by blast
  show "i < length xs \<Longrightarrow> \<not> \<not> P (xs ! i)" using assms(2) by simp
qed

lemma distinct_first:
  assumes "distinct (map f xs)" and "i < length xs" and "f (xs ! i) = v"
  shows "\<forall>j<i. f (xs ! j) \<noteq> v"
proof (intro allI impI)
  fix j assume j: "j < i"
  with assms(2) have jl: "j < length xs" by simp
  have "j < length (map f xs)" "i < length (map f xs)" using jl assms(2) by simp_all
  with assms(1) have "(map f xs ! j = map f xs ! i) = (j = i)"
    by (rule nth_eq_iff_index_eq)
  with j have "map f xs ! j \<noteq> map f xs ! i" by simp
  then show "f (xs ! j) \<noteq> v" using jl assms(2,3) by simp
qed

text \<open>
  C6 (regeneration with an assistant target). Let the history, the snapshot handed in
  or else the conversation loaded from storage, hold the target message identifier at
  index \<open>i\<close> with role \<open>assistant\<close> (identifiers are the primary key of the messages,
  so they are pairwise different). Then \<open>prepareMessages\<close> returns exactly the first
  \<open>i\<close> messages of the history, and the storage it leaves is the one after
  \<open>deleteMessagesFromIndex\<close> for the target: the stored conversation no longer holds
  the target or anything after it, and when the storage held the history, it holds
  the first \<open>i\<close> messages.
\<close>

theorem regenerate_assistant_target:
  assumes "trigger context = ''regenerate-message''"
    and "ctx_messageId context = Some mid" and "mid \<noteq> []"
    and "(case initialChat context of Some c \<Rightarrow> Some c
          | None \<Rightarrow> loadChat (chatId context) (userId context) st) = Some \<lparr>messages = hist\<rparr>"
    and "i < length hist" and "msg_id (hist ! i) = mid"
    and "msg_role (hist ! i) = ''assistant''"
    and "distinct (map msg_id hist)"
  shows "\<exists>res. prepareMessages newId context message_opt st = Inr res \<and>
           history res = take i hist \<and>
           store res = deleteMessagesFromIndex (chatId context) mid (userId context) st \<and>
           (\<forall>stored. st (chatId context) = Some stored \<longrightarrow>
              store res (chatId context) = Some (takeWhile (\<lambda>m. msg_id m \<noteq> mid) stored) \<and>
              (\<forall>m \<in> set (takeWhile (\<lambda>m. msg_id m \<noteq> mid) stored). msg_id m \<noteq> mid)) \<and>
           (st (chatId context) = Some hist \<longrightarrow> store res (chatId context) = Some (take i hist))"
proof -
  let ?P = "\<lambda>m. msg_id m = mid"
  have first: "\<forall>j<i. \<not> ?P (hist ! j)"
    using distinct_first[OF assms(8) assms(5) assms(6)] by blast
  have idx: "findIndex ?P hist = int i"
    using assms(5) assms(6) first by (rule findIndex_first)
  have ne: "length hist \<noteq> 0" using assms(5) by auto
  have tw: "takeWhile (\<lambda>m. msg_id m \<noteq> mid) hist = take i hist"
    using takeWhile_first[of i hist ?P, OF assms(5) assms(6) first] by simp
  let ?res = "\<lparr>history = take i hist,
               store = deleteMessagesFromIndex (chatId context) mid (userId context) st,
               pendingInitialSave = None, pendingInitialUserMessage = None\<rparr>"
  have run: "prepareMessages newId context message_opt st = Inr ?res"
    unfolding prepareMessages_def Let_def
    using assms(1-4,7) ne idx by simp
  have stored: "\<forall>stored. st (chatId context) = Some stored \<longrightarrow>
              store ?res (chatId context) = Some (takeWhile (\<lambda>m. msg_id m \<noteq> mid) stored) \<and>
              (\<forall>m \<in> set (takeWhile (\<lambda>m. msg_id m \<noteq> mid) stored). msg_id m \<noteq> mid)"
    by (auto simp: deleteMessagesFromIndex_def dest: set_takeWhileD)
  have same: "st (chatId context) = Some hist \<longrightarrow> store ?res (chatId context) = Some (take i hist)"
    by (simp add: deleteMessagesFromIndex_def tw)
  from run stored same show ?thesis
    by (intro exI[of _ ?res] conjI) simp_all
qed

theorem regenerate_assistant_target_witness:
  "trigger example_context = ''regenerate-message'' \<and>
   ctx_messageId example_context = Some ''assistant2'' \<and>
   (3::nat) < length example_history \<and>
   msg_id (example_history ! 3) = ''assistant2'' \<and>
   msg_role (example_history ! 3) = ''assistant'' \<and>
   distinct (map msg_id example_history) \<and>
   (\<exists>res. prepareMessages ''new'' example_context None example_storage = Inr res \<and>
      history res = take 3 example_history \<and>
      map msg_id (history res) = [''user1'', ''assistant1'', ''user2''] \<and>
      store res ''chat1'' = Some (take 3 example_history))"
proof -
  have h1: "trigger example_context = ''regenerate-message''"
    and h2: "ctx_messageId example_context = Some ''assistant2''"
    and cid: "chatId example_context = ''chat1''"
    by (simp_all add: example_context_def)
  have h3: "''assistant2'' \<noteq> []" by simp
  have h4: "(case initialChat example_context of Some c \<Rightarrow> Some c
          | None \<Rightarrow> loadChat (chatId example_context) (userId example_context) example_storage) =
        Some \<lparr>messages = example_history\<rparr>"
    by (simp add: example_context_def loadChat_def example_storage_def)
  have h5: "(3::nat) < length example_history" by (simp add: example_history_def)
  have h6: "msg_id (example_history ! 3) = ''assistant2''"
    by (simp add: example_history_def eval_nat_numeral)
  have h7: "msg_role (example_history ! 3) = ''assistant''"
    by (simp add: example_history_def eval_nat_numeral)
  have h8: "distinct (map msg_id example_history)" by (simp add: example_history_def)
  have st: "example_storage (chatId example_context) = Some example_history"
    by (simp add: example_storage_def cid)
  from regenerate_assistant_target[OF h1 h2 h3 h4 h5 h6 h7 h8, of "''new''" None] st cid
  obtain res where r: "prepareMessages ''new'' example_context None example_storage = Inr res"
    "history res = take 3 example_history"
    "store res ''chat1'' = Some (take 3 example_history)"
    by auto
  have "map msg_id (take 3 example_history) = [''user1'', ''assistant1'', ''user2'']"
    by (simp add: example_history_def eval_nat_numeral)
  with r have "\<exists>res. prepareMessages ''new'' example_context None example_storage = Inr res \<and>
      history res = take 3 example_history \<and>
      map msg_id (history res) = [''user1'', ''assistant1'', ''user2''] \<and>
      store res ''chat1'' = Some (take 3 example_history)"
    by simp
  with h1 h2 h5 h6 h7 h8 show ?thesis by (intro conjI)
qed

end
